theory Spec2Isabelle
  imports Main
begin

section \<open>JavaScript strings\<close>

text \<open>
  A JavaScript string is a sequence of UTF-16 code units.  A code unit is modelled as a
  natural number and a string as the list of its code units, so that \<open>length\<close> is the
  \<^verbatim>\<open>.length\<close> of the source.  String literals of the source are written
  \<open>js ''...''\<close>.
\<close>

type_synonym jstring = "nat list"

abbreviation js :: "string \<Rightarrow> jstring" where
  "js s \<equiv> map of_char s"

text \<open>The characters removed by \<^verbatim>\<open>trim\<close> and matched by \<^verbatim>\<open>\s\<close>:
  ECMAScript WhiteSpace and LineTerminator.\<close>

definition isWhiteSpace :: "nat \<Rightarrow> bool" where
  "isWhiteSpace c \<longleftrightarrow>
     c = 9 \<or> c = 10 \<or> c = 11 \<or> c = 12 \<or> c = 13 \<or> c = 32 \<or> c = 160 \<or> c = 5760 \<or>
     (8192 \<le> c \<and> c \<le> 8202) \<or> c = 8232 \<or> c = 8233 \<or> c = 8239 \<or> c = 8287 \<or>
     c = 12288 \<or> c = 65279"

definition isDigit :: "nat \<Rightarrow> bool" where
  "isDigit c \<longleftrightarrow> 48 \<le> c \<and> c \<le> 57"

definition trimStart :: "jstring \<Rightarrow> jstring" where
  "trimStart s = dropWhile isWhiteSpace s"

definition trimEnd :: "jstring \<Rightarrow> jstring" where
  "trimEnd s = rev (dropWhile isWhiteSpace (rev s))"

definition trim :: "jstring \<Rightarrow> jstring" where
  "trim s = trimEnd (trimStart s)"

definition startsWith :: "jstring \<Rightarrow> jstring \<Rightarrow> bool" where
  "startsWith s p \<longleftrightarrow> take (length p) s = p"

definition endsWith :: "jstring \<Rightarrow> jstring \<Rightarrow> bool" where
  "endsWith s p \<longleftrightarrow> length p \<le> length s \<and> drop (length s - length p) s = p"

text \<open>\<^verbatim>\<open>s.slice(a, b)\<close> for \<open>0 \<le> a\<close> and \<open>0 \<le> b\<close>; \<^verbatim>\<open>s.slice(a)\<close> is \<open>drop a s\<close>.\<close>

definition slice :: "jstring \<Rightarrow> nat \<Rightarrow> nat \<Rightarrow> jstring" where
  "slice s a b = take (b - a) (drop a s)"

fun includesStr :: "jstring \<Rightarrow> jstring \<Rightarrow> bool" where
  "includesStr [] p = (p = [])"
| "includesStr (c # s) p = (startsWith (c # s) p \<or> includesStr s p)"

text \<open>\<^verbatim>\<open>s.split(sep)\<close> for a separator of one code unit.\<close>

fun split :: "nat \<Rightarrow> jstring \<Rightarrow> jstring list" where
  "split sep [] = [[]]"
| "split sep (c # s) =
     (if c = sep then [] # split sep s
      else (case split sep s of [] \<Rightarrow> [[c]] | l # ls \<Rightarrow> (c # l) # ls))"

fun join :: "jstring \<Rightarrow> jstring list \<Rightarrow> jstring" where
  "join sep [] = []"
| "join sep [l] = l"
| "join sep (l # ls) = l @ sep @ join sep ls"

definition repeat :: "jstring \<Rightarrow> nat \<Rightarrow> jstring" where
  "repeat s n = concat (replicate n s)"

text \<open>\<^verbatim>\<open>toLowerCase\<close> on the ASCII letters.  The Unicode case mapping of the other
  code units is not modelled: they are left as they are.\<close>

definition toLowerCase :: "jstring \<Rightarrow> jstring" where
  "toLowerCase s = map (\<lambda>c. if 65 \<le> c \<and> c \<le> 90 then c + 32 else c) s"

text \<open>Decimal digits of a number, as template literals print it.\<close>

fun showNat :: "nat \<Rightarrow> jstring" where
  "showNat n = (if n < 10 then [48 + n] else showNat (n div 10) @ [48 + n mod 10])"

declare showNat.simps [simp del]

section \<open>Language normalisation\<close>

text \<open>\<^verbatim>\<open>validNotionLanguages\<close> of \<^verbatim>\<open>normalizeLanguage\<close>.\<close>

definition validNotionLanguages :: "jstring list" where
  "validNotionLanguages = map js
    [''abap'', ''abc'', ''agda'', ''arduino'', ''ascii art'', ''assembly'', ''bash'', ''basic'', ''bnf'',
     ''c'', ''c#'', ''c++'', ''clojure'', ''coffeescript'', ''coq'', ''css'', ''dart'', ''dhall'', ''diff'',
     ''docker'', ''ebnf'', ''elixir'', ''elm'', ''erlang'', ''f#'', ''flow'', ''fortran'', ''gherkin'',
     ''glsl'', ''go'', ''graphql'', ''groovy'', ''haskell'', ''hcl'', ''html'', ''idris'', ''java'',
     ''javascript'', ''json'', ''julia'', ''kotlin'', ''latex'', ''less'', ''lisp'', ''livescript'',
     ''llvm ir'', ''lua'', ''makefile'', ''markdown'', ''markup'', ''matlab'', ''mathematica'', ''mermaid'',
     ''nix'', ''notion formula'', ''objective-c'', ''ocaml'', ''pascal'', ''perl'', ''php'', ''plain text'',
     ''powershell'', ''prolog'', ''protobuf'', ''purescript'', ''python'', ''r'', ''racket'', ''reason'',
     ''ruby'', ''rust'', ''sass'', ''scala'', ''scheme'', ''scss'', ''shell'', ''smalltalk'', ''solidity'',
     ''sql'', ''swift'', ''toml'', ''typescript'', ''vb.net'', ''verilog'', ''vhdl'', ''visual basic'',
     ''webassembly'', ''xml'', ''yaml'', ''java/c/c++/c#'']"

text \<open>The entries of the object literal \<^verbatim>\<open>langMap\<close>, in the order of the source.  Several
  keys (\<^verbatim>\<open>vb\<close>, \<^verbatim>\<open>csharp\<close>, \<^verbatim>\<open>dockerfile\<close>) are written twice.\<close>

definition langMapEntries :: "(string \<times> string) list" where
  "langMapEntries =
    [(''js'', ''javascript''), (''ts'', ''typescript''), (''py'', ''python''), (''rb'', ''ruby''),
     (''sh'', ''bash''), (''shell'', ''shell''), (''zsh'', ''shell''), (''yml'', ''yaml''),
     (''md'', ''markdown''), (''cpp'', ''c++''), (''csharp'', ''c#''), (''cs'', ''c#''),
     (''fsharp'', ''f#''), (''fs'', ''f#''), (''rs'', ''rust''), (''objc'', ''objective-c''),
     (''obj-c'', ''objective-c''), (''vb'', ''visual basic''), (''tex'', ''latex''),
     (''dockerfile'', ''docker''), (''make'', ''makefile''), (''asm'', ''assembly''),
     (''wasm'', ''webassembly''), (''gql'', ''graphql''), (''hbs'', ''markup''),
     (''handlebars'', ''markup''), (''pug'', ''markup''), (''jade'', ''markup''),
     (''text'', ''plain text''), (''txt'', ''plain text''), (''plaintext'', ''plain text''),
     (''none'', ''plain text''), ('''', ''plain text''), (''f#'', ''fsharp''), (''vb'', ''vb''),
     (''vbnet'', ''vb''), (''csharp'', ''csharp''), (''c#'', ''csharp''),
     (''powershell'', ''powershell''), (''ps1'', ''powershell''), (''dockerfile'', ''dockerfile''),
     (''makefile'', ''makefile''), (''cmake'', ''makefile''), (''diff'', ''diff''),
     (''patch'', ''diff'')]"

text \<open>In an object literal the last entry written for a key is the one the object holds, so
  the lookup reads the entries from the last to the first.  Only the object's own keys are
  modelled, not the properties it inherits from \<^verbatim>\<open>Object.prototype\<close>.\<close>

definition langMap :: "jstring \<Rightarrow> jstring option" where
  "langMap k = map_of (rev (map (\<lambda>(a, b). (js a, js b)) langMapEntries)) k"

definition normalizeLanguage :: "jstring \<Rightarrow> jstring" where
  "normalizeLanguage lang =
     (if trim lang = [] then js ''plain text''
      else let normalized = trim (toLowerCase lang) in
        (case langMap normalized of
           Some v \<Rightarrow> if v \<noteq> [] then v
                     else if normalized \<in> set validNotionLanguages then normalized
                     else js ''plain text''
         | None \<Rightarrow> if normalized \<in> set validNotionLanguages then normalized
                   else js ''plain text''))"

section \<open>Rich text and URL validation\<close>

record annots =
  bold :: bool
  italic :: bool
  strikethrough :: bool
  code :: bool

definition noAnnotations :: annots where
  "noAnnotations = \<lparr>bold = False, italic = False, strikethrough = False, code = False\<rparr>"

record richText =
  content :: jstring
  annotations :: annots
  link :: "jstring option"

record url =
  protocol :: jstring
  href :: jstring
  pathname :: jstring

type_synonym urlParser = "jstring \<Rightarrow> url option"

definition isLineTerminator :: "nat \<Rightarrow> bool" where
  "isLineTerminator c \<longleftrightarrow> c = 10 \<or> c = 13 \<or> c = 8232 \<or> c = 8233"

definition httpUrlPattern :: "jstring \<Rightarrow> bool" where
  "httpUrlPattern s \<longleftrightarrow>
     (startsWith s (js ''http://'') \<and> 7 < length s \<and> \<not> isLineTerminator (s ! 7)) \<or>
     (startsWith s (js ''https://'') \<and> 8 < length s \<and> \<not> isLineTerminator (s ! 8))"

definition validateAndCleanUrl :: "urlParser \<Rightarrow> jstring \<Rightarrow> jstring option" where
  "validateAndCleanUrl newURL u =
     (if trim u = [] then None
      else let trimmed = trim u in
        (case (if httpUrlPattern trimmed
               then (case newURL trimmed of
                       None \<Rightarrow> Some None
                     | Some urlObj \<Rightarrow>
                         if protocol urlObj = js ''http:'' \<or> protocol urlObj = js ''https:''
                         then Some (Some (href urlObj)) else None)
               else None) of
           Some r \<Rightarrow> r
         | None \<Rightarrow>
             if startsWith trimmed (js ''//'')
             then (case newURL (js ''https:'' @ trimmed) of
                     None \<Rightarrow> None
                   | Some urlObj \<Rightarrow> Some (href urlObj))
             else None))"

definition truthy :: "jstring option \<Rightarrow> jstring option" where
  "truthy v = (case v of None \<Rightarrow> None | Some s \<Rightarrow> if s = [] then None else Some s)"

text \<open>The test \<^verbatim>\<open>if (link && link.url)\<close> followed by the validation of the URL: the
  link that is kept.\<close>

definition validLink :: "urlParser \<Rightarrow> jstring option \<Rightarrow> jstring option" where
  "validLink newURL l =
     (case truthy l of None \<Rightarrow> None | Some u \<Rightarrow> truthy (validateAndCleanUrl newURL u))"

definition createRichTextSegment ::
  "urlParser \<Rightarrow> jstring \<Rightarrow> annots \<Rightarrow> jstring option \<Rightarrow> richText" where
  "createRichTextSegment newURL c a l =
     \<lparr>content = c, annotations = a, link = validLink newURL l\<rparr>"

definition emptySegment :: richText where
  "emptySegment = \<lparr>content = [], annotations = noAnnotations, link = None\<rparr>"

section \<open>Inline formatter\<close>

datatype matchType = CodeT | BoldT | StrikethroughT | ItalicT | LinkT

datatype pattern = PCode | PBoldStar | PBoldUnder | PStrike | PItalicStar | PItalicUnder | PLink

record rmatch =
  mstart :: nat
  mend :: nat
  mtype :: matchType
  mcontent :: jstring
  mlink :: "jstring option"
  fullMatch :: jstring

definition matchDelimAt ::
  "jstring \<Rightarrow> nat \<Rightarrow> jstring \<Rightarrow> bool \<Rightarrow> jstring \<Rightarrow> nat \<Rightarrow> (nat \<times> jstring \<times> jstring option) option" where
  "matchDelimAt opn stop cls guarded text p =
     (let rest = drop p text in
      if \<not> startsWith rest opn then None
      else if guarded \<and> 0 < p \<and> text ! (p - 1) = stop then None
      else
        let body = takeWhile (\<lambda>c. c \<noteq> stop) (drop (length opn) rest);
            after = drop (length opn + length body) rest
        in if body = [] then None
           else if \<not> startsWith after cls then None
           else if guarded \<and> startsWith (drop (length cls) after) [stop] then None
           else Some (p + length opn + length body + length cls, body, None))"

definition matchLinkAt :: "jstring \<Rightarrow> nat \<Rightarrow> (nat \<times> jstring \<times> jstring option) option" where
  "matchLinkAt text p =
     (let rest = drop p text in
      if \<not> startsWith rest (js ''['') then None
      else
        let label = takeWhile (\<lambda>c. c \<noteq> 93) (drop 1 rest);
            after = drop (1 + length label) rest
        in if label = [] then None
           else if \<not> startsWith after (js '']('') then None
           else
             let target = takeWhile (\<lambda>c. c \<noteq> 41) (drop 2 after);
                 after2 = drop (2 + length target) after
             in if target = [] then None
                else if \<not> startsWith after2 (js '')'') then None
                else Some (p + 1 + length label + 2 + length target + 1, label, Some target))"


fun matchAt :: "pattern \<Rightarrow> jstring \<Rightarrow> nat \<Rightarrow> (nat \<times> jstring \<times> jstring option) option" where
  "matchAt PCode text p = matchDelimAt (js ''`'') 96 (js ''`'') False text p"
| "matchAt PBoldStar text p = matchDelimAt (js ''**'') 42 (js ''**'') False text p"
| "matchAt PBoldUnder text p = matchDelimAt (js ''__'') 95 (js ''__'') False text p"
| "matchAt PStrike text p = matchDelimAt (js ''~~'') 126 (js ''~~'') False text p"
| "matchAt PItalicStar text p = matchDelimAt (js ''*'') 42 (js ''*'') True text p"
| "matchAt PItalicUnder text p = matchDelimAt (js ''_'') 95 (js ''_'') True text p"
| "matchAt PLink text p = matchLinkAt text p"

fun patternType :: "pattern \<Rightarrow> matchType" where
  "patternType PCode = CodeT"
| "patternType PBoldStar = BoldT"
| "patternType PBoldUnder = BoldT"
| "patternType PStrike = StrikethroughT"
| "patternType PItalicStar = ItalicT"
| "patternType PItalicUnder = ItalicT"
| "patternType PLink = LinkT"

definition patterns :: "pattern list" where
  "patterns = [PCode, PBoldStar, PBoldUnder, PStrike, PItalicStar, PItalicUnder, PLink]"

lemma matchDelimAt_bounds:
  assumes m: "matchDelimAt opn stop cls g tx p = Some (e, c, l)" and o: "opn \<noteq> []"
  shows "p < e \<and> c \<noteq> [] \<and> length c < length tx"
proof -
  let ?rest = "drop p tx"
  let ?body = "takeWhile (\<lambda>c. c \<noteq> stop) (drop (length opn) ?rest)"
  from m have b: "?body \<noteq> []" and c: "c = ?body" and e: "e = p + length opn + length ?body + length cls"
    by (auto simp: matchDelimAt_def Let_def split: if_splits)
  have "length ?body \<le> length (drop (length opn) ?rest)" by (rule length_takeWhile_le)
  then have le: "length ?body \<le> length tx - p - length opn" by simp
  from b have "0 < length ?body" by simp
  moreover from o have "0 < length opn" by simp
  ultimately have "length ?body < length tx" using le by linarith
  with b c e show ?thesis by simp
qed

lemma matchLinkAt_bounds:
  "matchLinkAt text p = Some (e, c, l) \<Longrightarrow> p < e \<and> c \<noteq> [] \<and> length c < length text"
proof -
  assume m: "matchLinkAt text p = Some (e, c, l)"
  let ?rest = "drop p text"
  let ?label = "takeWhile (\<lambda>c. c \<noteq> 93) (drop 1 ?rest)"
  from m have b: "?label \<noteq> []" and c: "c = ?label" and e: "p < e"
    by (auto simp: matchLinkAt_def Let_def split: if_splits)
  have "length ?label \<le> length (drop 1 ?rest)" by (rule length_takeWhile_le)
  then have "length ?label \<le> length text - p - 1" by simp
  moreover from b have "0 < length ?label" by simp
  ultimately have "length ?label < length text" by linarith
  with b c e show ?thesis by simp
qed

lemma matchAt_bounds:
  "matchAt pat text p = Some (e, c, l) \<Longrightarrow> p < e \<and> c \<noteq> [] \<and> length c < length text"
  by (cases pat) (auto dest!: matchDelimAt_bounds matchLinkAt_bounds)

text \<open>The loop \<^verbatim>\<open>while ((match = regex.exec(text)) !== null)\<close> of a global regular
  expression: each search starts where the last match ended and finds the leftmost match.\<close>

function execAll :: "pattern \<Rightarrow> jstring \<Rightarrow> nat \<Rightarrow> rmatch list" where
  "execAll pat text p =
     (if length text \<le> p then []
      else (case matchAt pat text p of
              None \<Rightarrow> execAll pat text (Suc p)
            | Some (e, c, l) \<Rightarrow>
                \<lparr>mstart = p, mend = e, mtype = patternType pat,
                 mcontent = (if c \<noteq> [] then c else slice text p e),
                 mlink = l, fullMatch = slice text p e\<rparr> # execAll pat text e))"
  by pat_completeness auto
termination
  by (relation "measure (\<lambda>(pat, text, p). length text - p)")
     (auto dest: matchAt_bounds)

declare execAll.simps [simp del]

definition allMatches :: "jstring \<Rightarrow> rmatch list" where
  "allMatches text = concat (map (\<lambda>pat. execAll pat text 0) patterns)"

definition overlaps :: "rmatch \<Rightarrow> rmatch \<Rightarrow> bool" where
  "overlaps current existing \<longleftrightarrow>
     \<not> (mend current \<le> mstart existing \<or> mend existing \<le> mstart current)"

fun removeOverlapping :: "rmatch list \<Rightarrow> rmatch list \<Rightarrow> rmatch list" where
  "removeOverlapping nonOverlapping [] = nonOverlapping"
| "removeOverlapping nonOverlapping (current # ms) =
     (if \<exists>existing \<in> set nonOverlapping. overlaps current existing
      then removeOverlapping nonOverlapping ms
      else removeOverlapping (nonOverlapping @ [current]) ms)"

definition hasNestedFormatting :: "jstring \<Rightarrow> bool" where
  "hasNestedFormatting c \<longleftrightarrow>
     42 \<in> set c \<or> 95 \<in> set c \<or> 96 \<in> set c \<or> 91 \<in> set c \<or> includesStr c (js ''~~'')"

definition mergeAnnotations :: "annots \<Rightarrow> annots \<Rightarrow> annots" where
  "mergeAnnotations a b =
     \<lparr>bold = bold a \<or> bold b, italic = italic a \<or> italic b,
      strikethrough = strikethrough a \<or> strikethrough b, code = code a \<or> code b\<rparr>"

definition matchAnnotations :: "matchType \<Rightarrow> annots" where
  "matchAnnotations t =
     (case t of
        BoldT \<Rightarrow> noAnnotations\<lparr>bold := True\<rparr>
      | ItalicT \<Rightarrow> noAnnotations\<lparr>italic := True\<rparr>
      | StrikethroughT \<Rightarrow> noAnnotations\<lparr>strikethrough := True\<rparr>
      | CodeT \<Rightarrow> noAnnotations\<lparr>code := True\<rparr>
      | LinkT \<Rightarrow> noAnnotations)"

text \<open>The formatted runs of one match; \<open>nested\<close> stands for the recursive call of
  \<^verbatim>\<open>parseInlineMarkdown\<close>.\<close>

definition formatMatch :: "urlParser \<Rightarrow> (jstring \<Rightarrow> richText list) \<Rightarrow> rmatch \<Rightarrow> richText list" where
  "formatMatch newURL nested m =
     (let anns = matchAnnotations (mtype m);
          lnk = (if mtype m = LinkT
                 then (case mlink m of None \<Rightarrow> None
                       | Some u \<Rightarrow> truthy (validateAndCleanUrl newURL u))
                 else None)
      in if mtype m = CodeT \<or> mtype m = LinkT
         then [createRichTextSegment newURL (mcontent m) anns lnk]
         else if hasNestedFormatting (mcontent m)
         then map (\<lambda>segment.
                segment\<lparr>annotations := mergeAnnotations anns (annotations segment),
                        link := validLink newURL
                                  (case lnk of Some u \<Rightarrow> Some u | None \<Rightarrow> link segment)\<rparr>)
              (nested (mcontent m))
         else [createRichTextSegment newURL (mcontent m) anns lnk])"

fun buildRichText ::
  "urlParser \<Rightarrow> (jstring \<Rightarrow> richText list) \<Rightarrow> jstring \<Rightarrow> nat \<Rightarrow> rmatch list \<Rightarrow> richText list \<times> nat" where
  "buildRichText newURL nested text lastIndex [] = ([], lastIndex)"
| "buildRichText newURL nested text lastIndex (m # ms) =
     (let plain = (if lastIndex < mstart m \<and> slice text lastIndex (mstart m) \<noteq> []
                   then [createRichTextSegment newURL (slice text lastIndex (mstart m)) noAnnotations None]
                   else []);
          r = buildRichText newURL nested text (mend m) ms
      in (plain @ formatMatch newURL nested m @ fst r, snd r))"

lemma formatMatch_cong [fundef_cong]:
  "m = m' \<Longrightarrow> (hasNestedFormatting (mcontent m') \<Longrightarrow> f (mcontent m') = g (mcontent m')) \<Longrightarrow>
   formatMatch newURL f m = formatMatch newURL g m'"
  by (simp add: formatMatch_def Let_def)

lemma buildRichText_cong [fundef_cong]:
  "ms = ms' \<Longrightarrow> (\<And>m. m \<in> set ms' \<Longrightarrow> hasNestedFormatting (mcontent m) \<Longrightarrow> f (mcontent m) = g (mcontent m)) \<Longrightarrow>
   buildRichText newURL f text i ms = buildRichText newURL g text i ms'"
proof (induction ms' arbitrary: i ms)
  case Nil
  then show ?case by simp
next
  case (Cons a ms')
  have "formatMatch newURL f a = formatMatch newURL g a"
    by (rule formatMatch_cong) (use Cons.prems in auto)
  moreover have "buildRichText newURL f text (mend a) ms' = buildRichText newURL g text (mend a) ms'"
    by (rule Cons.IH) (use Cons.prems in auto)
  ultimately show ?case using Cons.prems(1) by simp
qed

definition MAX_TEXT_LENGTH :: nat where
  "MAX_TEXT_LENGTH = 2000"

function chunkLoop :: "jstring \<Rightarrow> nat \<Rightarrow> jstring list" where
  "chunkLoop c i =
     (if i < length c then slice c i (i + MAX_TEXT_LENGTH) # chunkLoop c (i + MAX_TEXT_LENGTH) else [])"
  by pat_completeness auto
termination
  by (relation "measure (\<lambda>(c, i). length c - i)") (auto simp: MAX_TEXT_LENGTH_def)

declare chunkLoop.simps [simp del]

definition splitSegment :: "urlParser \<Rightarrow> richText \<Rightarrow> richText list" where
  "splitSegment newURL segment =
     (if length (content segment) \<le> MAX_TEXT_LENGTH then [segment]
      else map (\<lambda>chunk. createRichTextSegment newURL chunk (annotations segment) (link segment))
             (chunkLoop (content segment) 0))"

lemma execAll_content:
  "m \<in> set (execAll pat text p) \<Longrightarrow> length (mcontent m) < length text"
proof (induction pat "text" p rule: execAll.induct)
  case (1 pat tx p)
  show ?case
  proof (cases "length tx \<le> p")
    case True
    with "1.prems" show ?thesis by (simp add: execAll.simps)
  next
    case False
    show ?thesis
    proof (cases "matchAt pat tx p")
      case None
      with False "1.prems" "1.IH"(1) show ?thesis by (simp add: execAll.simps)
    next
      case (Some r)
      obtain e c l where r: "r = (e, c, l)" by (cases r)
      from matchAt_bounds Some r have b: "c \<noteq> []" "length c < length tx" by blast+
      from False Some r "1.prems" "1.IH"(2) b show ?thesis
        by (auto simp: execAll.simps [of pat tx p])
    qed
  qed
qed

lemma removeOverlapping_subset:
  "set (removeOverlapping acc ms) \<subseteq> set acc \<union> set ms"
proof (induction ms arbitrary: acc)
  case Nil
  show ?case by simp
next
  case (Cons a ms)
  from Cons.IH [of acc] Cons.IH [of "acc @ [a]"] show ?case by auto
qed

lemma nonOverlapping_content:
  "m \<in> set (removeOverlapping [] (sort_key mstart (allMatches text))) \<Longrightarrow>
   length (mcontent m) < length text"
proof -
  assume "m \<in> set (removeOverlapping [] (sort_key mstart (allMatches text)))"
  with removeOverlapping_subset have "m \<in> set (sort_key mstart (allMatches text))" by fastforce
  then have "m \<in> set (allMatches text)" by simp
  then show ?thesis by (auto simp: allMatches_def dest: execAll_content)
qed

function parseInlineMarkdown :: "urlParser \<Rightarrow> jstring \<Rightarrow> richText list" where
  "parseInlineMarkdown newURL text =
     (if trim text = [] then [emptySegment]
      else
        let matches = sort_key mstart (allMatches text);
            nonOverlapping = removeOverlapping [] matches;
            built = buildRichText newURL (parseInlineMarkdown newURL) text 0 nonOverlapping;
            lastIndex = snd built;
            richText = fst built @
              (if lastIndex < length text \<and> drop lastIndex text \<noteq> []
               then [createRichTextSegment newURL (drop lastIndex text) noAnnotations None]
               else []);
            result = concat (map (splitSegment newURL) richText)
        in if result \<noteq> [] then result else [emptySegment])"
  by pat_completeness auto
termination
  by (relation "measure (\<lambda>(newURL, text). length text)")
     (auto dest: nonOverlapping_content)

declare parseInlineMarkdown.simps [simp del]

text \<open>The list \<^verbatim>\<open>richText\<close> of \<^verbatim>\<open>parseInlineMarkdown\<close> as it is before the runs over
  the length limit are split, for a text that is not blank.\<close>

definition richTextRuns :: "urlParser \<Rightarrow> jstring \<Rightarrow> richText list" where
  "richTextRuns newURL text =
     (let matches = sort_key mstart (allMatches text);
          nonOverlapping = removeOverlapping [] matches;
          built = buildRichText newURL (parseInlineMarkdown newURL) text 0 nonOverlapping;
          lastIndex = snd built
      in fst built @
           (if lastIndex < length text \<and> drop lastIndex text \<noteq> []
            then [createRichTextSegment newURL (drop lastIndex text) noAnnotations None]
            else []))"

text \<open>Two URL constructors to evaluate the definitions with: one that throws on every
  input, and one that accepts a single URL and throws on every other input.\<close>

definition noURL :: urlParser where
  "noURL s = None"

definition exampleURL :: urlParser where
  "exampleURL s =
     (if s = js ''https://x.tld/Page-2dadca9a3fff80278295e23720dd2a53''
      then Some \<lparr>protocol = js ''https:'', href = s,
                 pathname = js ''/Page-2dadca9a3fff80278295e23720dd2a53''\<rparr>
      else None)"

text \<open>A link that is absent, or that is a result of \<^verbatim>\<open>validateAndCleanUrl\<close>.\<close>

definition validatedLink :: "urlParser \<Rightarrow> jstring option \<Rightarrow> bool" where
  "validatedLink newURL l \<longleftrightarrow>
     (case l of None \<Rightarrow> True | Some h \<Rightarrow> h \<noteq> [] \<and> (\<exists>u. validateAndCleanUrl newURL u = Some h))"

text \<open>The characters with which the patterns of the inline formatter start.\<close>

definition noMarkup :: "jstring \<Rightarrow> bool" where
  "noMarkup t \<longleftrightarrow> (\<forall>c \<in> set t. c \<noteq> 96 \<and> c \<noteq> 42 \<and> c \<noteq> 95 \<and> c \<noteq> 126 \<and> c \<noteq> 91)"

definition plainRun :: "jstring \<Rightarrow> richText" where
  "plainRun c = \<lparr>content = c, annotations = noAnnotations, link = None\<rparr>"

section \<open>Blocks\<close>

datatype block =
    Paragraph "richText list"
  | BulletedListItem "richText list" "block list option"
  | NumberedListItem "richText list" "block list option"
  | ToDo "richText list" bool "block list option"
  | Callout "richText list" jstring jstring
  | Code "richText list" jstring
  | Image jstring "richText list"

definition createParagraphBlock :: "urlParser \<Rightarrow> jstring \<Rightarrow> block" where
  "createParagraphBlock newURL t = Paragraph (parseInlineMarkdown newURL t)"






fun richTextOf :: "block \<Rightarrow> richText list" where
  "richTextOf (Paragraph r) = r"
| "richTextOf (BulletedListItem r c) = r"
| "richTextOf (NumberedListItem r c) = r"
| "richTextOf (ToDo r k c) = r"
| "richTextOf (Callout r i c) = r"
| "richTextOf (Code r l) = r"
| "richTextOf (Image u r) = r"

section \<open>Image blocks\<close>

definition pictureFrameEmoji :: jstring where
  "pictureFrameEmoji = [55357, 56764, 65039]"

definition createImageBlock :: "urlParser \<Rightarrow> jstring \<Rightarrow> jstring \<Rightarrow> block" where
  "createImageBlock newURL u caption =
     (case truthy (validateAndCleanUrl newURL u) of
        None \<Rightarrow>
          let imageText = (if caption \<noteq> [] then js ''Image: '' @ caption else js ''Image'');
              imageUrl = (if u \<noteq> [] then u else js ''N/A'');
              isValidHttpUrl = (startsWith imageUrl (js ''http://'') \<or> startsWith imageUrl (js ''https://''))
          in Callout
               ([\<lparr>content = imageText, annotations = noAnnotations, link = None\<rparr>] @
                (if isValidHttpUrl
                 then [\<lparr>content = js '' - View original image'', annotations = noAnnotations,
                        link = Some imageUrl\<rparr>]
                 else [\<lparr>content = js '' - URL: '' @ imageUrl, annotations = noAnnotations,
                        link = None\<rparr>]))
               pictureFrameEmoji (js ''yellow_background'')
      | Some validUrl \<Rightarrow>
          Image validUrl (if caption \<noteq> [] then parseInlineMarkdown newURL caption else []))"

section \<open>List tree builder\<close>




text \<open>The regular expressions of \<^verbatim>\<open>cleanListContent\<close> are all anchored at the start of
  the string and are sequences of the following elements.  In each of them an element that
  follows a run of digits cannot match a digit, and the element that follows a run of white
  space cannot match white space, so the greedy match of every run is the only one that
  can succeed.\<close>

datatype relem =
    Digits         \<comment> \<open>\<^verbatim>\<open>\d+\<close>\<close>
  | SameDigits     \<comment> \<open>\<^verbatim>\<open>(\d)\1+\<close>\<close>
  | Lit nat
  | Sep            \<comment> \<open>the ideographic comma U+3001 or a full stop\<close>
  | Spaces0        \<comment> \<open>\<^verbatim>\<open>\s*\<close>\<close>
  | Spaces1        \<comment> \<open>\<^verbatim>\<open>\s+\<close>\<close>

fun matchElem :: "relem \<Rightarrow> jstring \<Rightarrow> jstring option" where
  "matchElem Digits s = (if takeWhile isDigit s = [] then None else Some (dropWhile isDigit s))"
| "matchElem SameDigits [] = None"
| "matchElem SameDigits (c # s) =
     (if isDigit c \<and> takeWhile (\<lambda>x. x = c) s \<noteq> [] then Some (dropWhile (\<lambda>x. x = c) s) else None)"
| "matchElem (Lit c) [] = None"
| "matchElem (Lit c) (x # s) = (if x = c then Some s else None)"
| "matchElem Sep [] = None"
| "matchElem Sep (x # s) = (if x = 12289 \<or> x = 46 then Some s else None)"
| "matchElem Spaces0 s = Some (dropWhile isWhiteSpace s)"
| "matchElem Spaces1 s = (if takeWhile isWhiteSpace s = [] then None else Some (dropWhile isWhiteSpace s))"

fun matchPrefix :: "relem list \<Rightarrow> jstring \<Rightarrow> jstring option" where
  "matchPrefix [] s = Some s"
| "matchPrefix (e # es) s = (case matchElem e s of None \<Rightarrow> None | Some r \<Rightarrow> matchPrefix es r)"


















section \<open>Page identifiers\<close>

definition isHexDigit :: "nat \<Rightarrow> bool" where
  "isHexDigit c \<longleftrightarrow> (48 \<le> c \<and> c \<le> 57) \<or> (97 \<le> c \<and> c \<le> 102) \<or> (65 \<le> c \<and> c \<le> 70)"

text \<open>\<^verbatim>\<open>/^[a-f0-9]{32}$/i\<close>\<close>

definition isHex32 :: "jstring \<Rightarrow> bool" where
  "isHex32 s \<longleftrightarrow> length s = 32 \<and> (\<forall>c \<in> set s. isHexDigit c)"

text \<open>\<^verbatim>\<open>pathname.match(/-([a-f0-9]{32})$/i) || pathname.match(/([a-f0-9]{32})$/i)\<close>, giving
  the group of the match.\<close>

definition matchPathId :: "jstring \<Rightarrow> jstring option" where
  "matchPathId p =
     (let n = length p in
      if 33 \<le> n \<and> p ! (n - 33) = 45 \<and> isHex32 (drop (n - 32) p) then Some (drop (n - 32) p)
      else if 32 \<le> n \<and> isHex32 (drop (n - 32) p) then Some (drop (n - 32) p)
      else None)"

definition removeDashes :: "jstring \<Rightarrow> jstring" where
  "removeDashes s = filter (\<lambda>c. c \<noteq> 45) s"

definition formatNotionId :: "jstring \<Rightarrow> jstring" where
  "formatNotionId i =
     (let cleanId = removeDashes i in
      if length cleanId \<noteq> 32 then i
      else slice cleanId 0 8 @ js ''-'' @ slice cleanId 8 12 @ js ''-'' @ slice cleanId 12 16 @
           js ''-'' @ slice cleanId 16 20 @ js ''-'' @ slice cleanId 20 32)"

text \<open>An exception is a result \<open>Inl\<close> with the message of the error.\<close>

definition extractAndValidatePageId :: "urlParser \<Rightarrow> jstring \<Rightarrow> jstring + jstring" where
  "extractAndValidatePageId newURL input =
     (if trim input = [] then Inl (js ''Parent page ID is required'')
      else
        let trimmed = trim input in
        if startsWith trimmed (js ''http://'') \<or> startsWith trimmed (js ''https://'')
        then (case newURL trimmed of
                None \<Rightarrow> Inl (js ''Invalid Notion page URL format'')
              | Some urlObj \<Rightarrow>
                  (case matchPathId (pathname urlObj) of
                     Some m \<Rightarrow> Inr (formatNotionId m)
                   | None \<Rightarrow> Inl (js ''Invalid Notion page URL format'')))
        else
          let cleanId = removeDashes trimmed in
          if \<not> isHex32 cleanId
          then Inl (js ''Invalid page ID format. Expected 32-character hex string.'')
          else Inr (formatNotionId cleanId))"

text \<open>The two shapes of input that are accepted: a string that is not an http or https URL and
  has 32 hexadecimal digits once its hyphens are removed, and an http or https URL that the
  URL constructor accepts and whose path ends in 32 hexadecimal digits.\<close>

definition isHttpPrefixed :: "jstring \<Rightarrow> bool" where
  "isHttpPrefixed t \<longleftrightarrow> startsWith t (js ''http://'') \<or> startsWith t (js ''https://'')"

definition last32 :: "jstring \<Rightarrow> jstring" where
  "last32 p = drop (length p - 32) p"

definition bareIdShape :: "jstring \<Rightarrow> bool" where
  "bareIdShape t \<longleftrightarrow> t \<noteq> [] \<and> \<not> isHttpPrefixed t \<and> isHex32 (removeDashes t)"

definition urlIdShape :: "urlParser \<Rightarrow> jstring \<Rightarrow> bool" where
  "urlIdShape newURL t \<longleftrightarrow>
     isHttpPrefixed t \<and>
     (case newURL t of None \<Rightarrow> False
      | Some urlObj \<Rightarrow> 32 \<le> length (pathname urlObj) \<and> isHex32 (last32 (pathname urlObj)))"

definition urlPath :: "urlParser \<Rightarrow> jstring \<Rightarrow> jstring" where
  "urlPath newURL t = (case newURL t of None \<Rightarrow> [] | Some urlObj \<Rightarrow> pathname urlObj)"

text \<open>The form 8-4-4-4-12 of hexadecimal digits.\<close>

definition isUuidForm :: "jstring \<Rightarrow> bool" where
  "isUuidForm s \<longleftrightarrow>
     length s = 36 \<and>
     (\<forall>i < 36. if i = 8 \<or> i = 13 \<or> i = 18 \<or> i = 23 then s ! i = 45 else isHexDigit (s ! i))"

section \<open>Page assembler\<close>

record page =
  page_id :: jstring
  page_url :: jstring

datatype request =
    CreatePage jstring jstring "block list" jstring
  | AppendChildren jstring "block list" jstring

text \<open>The Notion service, as \<^verbatim>\<open>notionRequest\<close> sees it: from the requests made so far
  and the request made now to the response, or to the message of the error thrown.\<close>

type_synonym network = "request list \<Rightarrow> request \<Rightarrow> jstring + page"

record world =
  calls :: "request list"
  progress :: "(nat \<times> jstring) list"

definition sendProgressUpdate :: "world \<Rightarrow> nat \<Rightarrow> jstring \<Rightarrow> world" where
  "sendProgressUpdate w percent status = w\<lparr>progress := progress w @ [(percent, status)]\<rparr>"

definition notionRequest :: "network \<Rightarrow> world \<Rightarrow> request \<Rightarrow> world \<times> (jstring + page)" where
  "notionRequest net w req = (w\<lparr>calls := calls w @ [req]\<rparr>, net (calls w) req)"

definition MAX_BLOCKS_PER_REQUEST :: nat where
  "MAX_BLOCKS_PER_REQUEST = 100"

function appendChunks ::
  "network \<Rightarrow> world \<Rightarrow> jstring \<Rightarrow> block list \<Rightarrow> jstring \<Rightarrow> nat \<Rightarrow> world \<times> (jstring + unit)" where
  "appendChunks net w pageId blocks apiToken i =
     (if i < length blocks
      then (case notionRequest net w
                   (AppendChildren pageId (take MAX_BLOCKS_PER_REQUEST (drop i blocks)) apiToken) of
              (w', Inl e) \<Rightarrow> (w', Inl e)
            | (w', Inr r) \<Rightarrow> appendChunks net w' pageId blocks apiToken (i + MAX_BLOCKS_PER_REQUEST))
      else (w, Inr ()))"
  by pat_completeness auto
termination
  by (relation "measure (\<lambda>(net, w, pageId, blocks, apiToken, i). length blocks - i)")
     (auto simp: MAX_BLOCKS_PER_REQUEST_def)

declare appendChunks.simps [simp del]

definition appendBlocksToPage ::
  "network \<Rightarrow> world \<Rightarrow> jstring \<Rightarrow> block list \<Rightarrow> jstring \<Rightarrow> world \<times> (jstring + unit)" where
  "appendBlocksToPage net w pageId blocks apiToken =
     (if length blocks \<le> MAX_BLOCKS_PER_REQUEST
      then (case notionRequest net w (AppendChildren pageId blocks apiToken) of
              (w', Inl e) \<Rightarrow> (w', Inl e)
            | (w', Inr r) \<Rightarrow> (w', Inr ()))
      else appendChunks net w pageId blocks apiToken 0)"

record pageParams =
  title :: jstring
  markdown :: jstring
  parentPageId :: jstring
  apiToken :: jstring
  sourceUrl :: jstring

definition placeholderBlock :: block where
  "placeholderBlock = Paragraph [plainRun (js ''(Content could not be converted)'')]"

definition pageEmoji :: jstring where
  "pageEmoji = [55357, 56516]"

definition sourceCallout :: "jstring \<Rightarrow> block" where
  "sourceCallout u =
     Callout [plainRun (js ''Imported from Confluence: ''),
              \<lparr>content = u, annotations = noAnnotations, link = Some u\<rparr>]
       pageEmoji (js ''gray_background'')"

text \<open>The blocks of the page: the converted Markdown, or the placeholder when there is none,
  after the callout of the source when a source URL is given.  The conversion
  \<^verbatim>\<open>markdownToNotionBlocks\<close> is a parameter.\<close>

definition pageBlocks :: "(jstring \<Rightarrow> block list) \<Rightarrow> pageParams \<Rightarrow> block list" where
  "pageBlocks convert d =
     (let blocks = (if convert (markdown d) = [] then [placeholderBlock] else convert (markdown d))
      in if sourceUrl d \<noteq> [] then sourceCallout (sourceUrl d) # blocks else blocks)"

text \<open>The loop over the remaining blocks.  The percentage is
  \<^verbatim>\<open>80 + Math.floor((chunkIndex / totalChunks) * 15)\<close>, computed here on the integers; the
  floating-point computation of the source gives the same number when the quotient is 1.\<close>

function uploadChunks ::
  "network \<Rightarrow> world \<Rightarrow> jstring \<Rightarrow> block list \<Rightarrow> jstring \<Rightarrow> nat \<Rightarrow> world \<times> (jstring + unit)" where
  "uploadChunks net w pageId remainingBlocks token i =
     (if i < length remainingBlocks
      then
        let totalChunks = (length remainingBlocks + MAX_BLOCKS_PER_REQUEST - 1) div MAX_BLOCKS_PER_REQUEST;
            chunk = take MAX_BLOCKS_PER_REQUEST (drop i remainingBlocks);
            chunkIndex = i div MAX_BLOCKS_PER_REQUEST + 1;
            percent = 80 + (chunkIndex * 15) div totalChunks;
            w1 = sendProgressUpdate w percent
                   (js ''Uploading blocks '' @ showNat chunkIndex @ js ''/'' @ showNat totalChunks @ js ''...'')
        in (case appendBlocksToPage net w1 pageId chunk token of
              (w2, Inl e) \<Rightarrow> (w2, Inl e)
            | (w2, Inr r) \<Rightarrow> uploadChunks net w2 pageId remainingBlocks token (i + MAX_BLOCKS_PER_REQUEST))
      else (w, Inr ()))"
  by pat_completeness auto
termination
  by (relation "measure (\<lambda>(net, w, pageId, remainingBlocks, token, i). length remainingBlocks - i)")
     (auto simp: MAX_BLOCKS_PER_REQUEST_def)

declare uploadChunks.simps [simp del]

definition createNotionPage ::
  "(jstring \<Rightarrow> block list) \<Rightarrow> network \<Rightarrow> world \<Rightarrow> pageParams \<Rightarrow> world \<times> (jstring + jstring \<times> jstring)" where
  "createNotionPage convert net w d =
     (let w1 = sendProgressUpdate w 60 (js ''Converting Markdown to Notion blocks...'');
          converted = (if convert (markdown d) = [] then [placeholderBlock] else convert (markdown d));
          w2 = sendProgressUpdate w1 65
                 (js ''Generated '' @ showNat (length converted) @ js '' blocks'');
          blocks = pageBlocks convert d;
          initialBlocks = take MAX_BLOCKS_PER_REQUEST blocks;
          remainingBlocks = drop MAX_BLOCKS_PER_REQUEST blocks;
          w3 = sendProgressUpdate w2 70 (js ''Creating page in Notion...'')
      in case notionRequest net w3 (CreatePage (parentPageId d) (title d) initialBlocks (apiToken d)) of
           (w4, Inl e) \<Rightarrow> (w4, Inl e)
         | (w4, Inr pg) \<Rightarrow>
             let w5 = sendProgressUpdate w4 80 (js ''Page created, uploading content...'')
             in case (if remainingBlocks \<noteq> []
                      then uploadChunks net w5 (page_id pg) remainingBlocks (apiToken d) 0
                      else (w5, Inr ())) of
                  (w6, Inl e) \<Rightarrow> (w6, Inl e)
                | (w6, Inr r) \<Rightarrow>
                    (sendProgressUpdate w6 95 (js ''Finalizing...''), Inr (page_id pg, page_url pg)))"

record response =
  success :: bool
  pageUrl :: "jstring option"
  pageId :: "jstring option"
  error :: "jstring option"

text \<open>\<^verbatim>\<open>error.message || String(error)\<close>\<close>

definition errorText :: "jstring \<Rightarrow> jstring" where
  "errorText e = (if e \<noteq> [] then e else js ''Error'')"

definition failure :: "world \<Rightarrow> jstring \<Rightarrow> world \<times> response" where
  "failure w e =
     (sendProgressUpdate w 50 (js ''Error: '' @ e),
      \<lparr>success = False, pageUrl = None, pageId = None, error = Some (errorText e)\<rparr>)"

definition handleCreatePage ::
  "(jstring \<Rightarrow> block list) \<Rightarrow> urlParser \<Rightarrow> network \<Rightarrow> world \<Rightarrow> pageParams \<Rightarrow> world \<times> response" where
  "handleCreatePage convert newURL net w d =
     (if apiToken d = [] then failure w (js ''Notion API token is required'')
      else if title d = [] then failure w (js ''Page title is required'')
      else if markdown d = [] then failure w (js ''Markdown content is required'')
      else (case extractAndValidatePageId newURL (parentPageId d) of
              Inl e \<Rightarrow> failure w e
            | Inr validatedPageId \<Rightarrow>
                let w1 = sendProgressUpdate w 55 (js ''Starting page creation...'')
                in (case createNotionPage convert net w1 (d\<lparr>parentPageId := validatedPageId\<rparr>) of
                      (w2, Inl e) \<Rightarrow> failure w2 e
                    | (w2, Inr (pid, purl)) \<Rightarrow>
                        (w2, \<lparr>success = True, pageUrl = Some purl, pageId = Some pid, error = None\<rparr>))))"


text \<open>A conversion and two services to evaluate the definitions with: the conversion gives 150
  blocks for every Markdown text; one service accepts every request, the other accepts the
  creation of a page and refuses to append to it.\<close>

definition convert150 :: "jstring \<Rightarrow> block list" where
  "convert150 m = replicate 150 (Paragraph [plainRun (js ''x'')])"

definition examplePage :: page where
  "examplePage = \<lparr>page_id = js ''p1'', page_url = js ''https://www.notion.so/p1''\<rparr>"

definition okNet :: network where
  "okNet h r = Inr examplePage"


definition exampleParams :: pageParams where
  "exampleParams =
     \<lparr>title = js ''T'', markdown = js ''m'', parentPageId = js ''2dadca9a3fff80278295e23720dd2a53'',
      apiToken = js ''secret'', sourceUrl = []\<rparr>"

text \<open>A URL constructor for the URLs of the host \<^verbatim>\<open>x.tld\<close>.\<close>

definition hostURL :: urlParser where
  "hostURL s =
     (if startsWith s (js ''https://x.tld/'')
      then Some \<lparr>protocol = js ''https:'', href = s, pathname = drop 13 s\<rparr>
      else None)"

definition emptyWorld :: world where
  "emptyWorld = \<lparr>calls = [], progress = []\<rparr>"

section \<open>Code blocks: the Markdown serializer and the block tokenizer\<close>

lemma startsWith_length: "startsWith s p \<Longrightarrow> length p \<le> length s"
proof -
  assume "startsWith s p"
  then have "length (take (length p) s) = length p" by (simp add: startsWith_def)
  then show ?thesis by simp
qed

lemma includesStr_length: "includesStr s p \<Longrightarrow> length p \<le> length s"
proof (induction s)
  case Nil
  then show ?case by simp
next
  case (Cons c s)
  then show ?case using startsWith_length [of "c # s" p] by auto
qed

text \<open>The loop \<^verbatim>\<open>while (codeContent.includes('`'.repeat(fenceCount))) fenceCount++\<close>.\<close>

function fenceCountLoop :: "jstring \<Rightarrow> nat \<Rightarrow> nat" where
  "fenceCountLoop codeContent fenceCount =
     (if includesStr codeContent (repeat (js ''`'') fenceCount)
      then fenceCountLoop codeContent (fenceCount + 1) else fenceCount)"
  by pat_completeness auto
termination
proof (relation "measure (\<lambda>(codeContent, fenceCount). length codeContent + 1 - fenceCount)")
  show "wf (measure (\<lambda>(codeContent, fenceCount). length codeContent + 1 - fenceCount))" by simp
next
  fix codeContent :: jstring and fenceCount :: nat
  assume "includesStr codeContent (repeat (js ''`'') fenceCount)"
  then have "length (repeat (js ''`'') fenceCount) \<le> length codeContent" by (rule includesStr_length)
  then have "fenceCount \<le> length codeContent" by (simp add: repeat_def)
  then show "((codeContent, fenceCount + 1), (codeContent, fenceCount)) \<in>
      measure (\<lambda>(codeContent, fenceCount). length codeContent + 1 - fenceCount)"
    by simp
qed

declare fenceCountLoop.simps [simp del]

definition codeFence :: "jstring \<Rightarrow> jstring" where
  "codeFence codeContent =
     (if includesStr codeContent (js ''```'')
      then repeat (js ''`'') (fenceCountLoop codeContent 4)
      else js ''```'')"

text \<open>The replacement of the rule \<^verbatim>\<open>confluenceCodeBlock\<close>, from the text and the
  language of the \<^verbatim>\<open>pre\<close> element.\<close>

definition confluenceCodeBlock :: "jstring \<Rightarrow> jstring \<Rightarrow> jstring" where
  "confluenceCodeBlock codeContent language =
     (let fence = codeFence codeContent
      in [10, 10] @ fence @ (if language \<noteq> [] then js '' '' @ language else []) @ [10] @
         codeContent @ [10] @ fence @ [10, 10])"

text \<open>\<^verbatim>\<open>.replace(/\r\n/g, '\n').replace(/\r/g, '\n')\<close>\<close>

fun normalizeLineEndings :: "jstring \<Rightarrow> jstring" where
  "normalizeLineEndings [] = []"
| "normalizeLineEndings (c # s) =
     (if c = 13
      then (case s of [] \<Rightarrow> [10] | d # s' \<Rightarrow>
              if d = 10 then 10 # normalizeLineEndings s' else 10 # normalizeLineEndings s)
      else c # normalizeLineEndings s)"

definition MAX_CODE_LENGTH :: nat where
  "MAX_CODE_LENGTH = 2000"

definition createCodeBlock :: "jstring \<Rightarrow> jstring \<Rightarrow> block" where
  "createCodeBlock c language =
     (let normalizedLang = normalizeLanguage language;
          codeString = normalizeLineEndings c
      in if length codeString \<le> MAX_CODE_LENGTH then Code [plainRun codeString] normalizedLang
         else Code [plainRun (slice codeString 0 (MAX_CODE_LENGTH - 100) @ [10, 10] @
                      js ''... (truncated, original code too long) ...'')] normalizedLang)"

text \<open>The inner loop of the fenced code rule, which looks for the closing fence.\<close>

function collectCodeLines ::
  "jstring list \<Rightarrow> jstring \<Rightarrow> nat \<Rightarrow> jstring list \<Rightarrow> jstring list \<times> nat" where
  "collectCodeLines lines ind i codeLines =
     (if i < length lines
      then
        let currentLine = lines ! i;
            currentTrimmed = trimStart currentLine
        in if startsWith currentTrimmed (js ''```'') \<and> trim currentTrimmed = js ''```''
           then (codeLines, i)
           else collectCodeLines lines ind (i + 1)
                  (codeLines @ [if ind \<noteq> [] \<and> startsWith currentLine ind
                                then drop (length ind) currentLine else currentLine])
      else (codeLines, i))"
  by pat_completeness auto
termination
  by (relation "measure (\<lambda>(lines, ind, i, codeLines). length lines - i)") auto

declare collectCodeLines.simps [simp del]

lemma collectCodeLines_index: "i \<le> snd (collectCodeLines lines ind i codeLines)"
proof (induction lines ind i codeLines rule: collectCodeLines.induct)
  case (1 lines ind i codeLines)
  show ?case
  proof (cases "i < length lines \<and>
      \<not> (startsWith (trimStart (lines ! i)) (js ''```'') \<and> trim (trimStart (lines ! i)) = js ''```'')")
    case True
    then have "i + 1 \<le> snd (collectCodeLines lines ind (i + 1)
        (codeLines @ [if ind \<noteq> [] \<and> startsWith (lines ! i) ind
                      then drop (length ind) (lines ! i) else lines ! i]))"
      using "1.IH" by simp
    with True show ?thesis by (subst collectCodeLines.simps) (simp add: Let_def)
  next
    case False
    then show ?thesis by (subst collectCodeLines.simps) (auto simp: Let_def)
  qed
qed

text \<open>The loop of \<^verbatim>\<open>markdownToNotionBlocks\<close> with its first two rules, the blank line and
  the fenced code.  The rules that follow in the source (heading, horizontal rule, table,
  block quote, list, image, paragraph) are the parameter \<open>laterRules\<close>, which gives the
  blocks of the line at the index and the index of the next line to read.  Each of those
  rules moves the index forward; the result is \<open>None\<close> when the parameter does not.\<close>

type_synonym lineRules = "jstring list \<Rightarrow> nat \<Rightarrow> block list \<times> nat"

function tokenizeFrom :: "lineRules \<Rightarrow> jstring list \<Rightarrow> nat \<Rightarrow> block list option" where
  "tokenizeFrom laterRules lines i =
     (if i < length lines
      then
        let line = lines ! i in
        if trim line = [] then tokenizeFrom laterRules lines (i + 1)
        else
          let trimmedLine = trimStart line;
              leadingSpaces = length line - length trimmedLine
          in if startsWith trimmedLine (js ''```'')
             then
               let afterFence = trim (drop 3 trimmedLine);
                   language = (if afterFence \<noteq> [] then afterFence else js ''plain text'');
                   ind = slice line 0 leadingSpaces;
                   collected = collectCodeLines lines ind (i + 1) [];
                   codeContent = join [10] (fst collected)
               in map_option (\<lambda>bs. createCodeBlock codeContent language # bs)
                    (tokenizeFrom laterRules lines (snd collected + 1))
             else
               (if snd (laterRules lines i) \<le> i then None
                else map_option (\<lambda>bs. fst (laterRules lines i) @ bs)
                       (tokenizeFrom laterRules lines (snd (laterRules lines i))))
      else Some [])"
  by pat_completeness auto
termination
proof (relation "measure (\<lambda>(laterRules, lines, i). length lines - i)", goal_cases)
  case 1
  show ?case by simp
next
  case (2 laterRules lines i x)
  then show ?case by simp
next
  case (3 laterRules lines i x xa xb xc xd xe xf xg)
  with collectCodeLines_index [of "i + 1" lines xe "[]"] show ?case by simp
next
  case (4 laterRules lines i x xa xb)
  then show ?case by simp
qed

declare tokenizeFrom.simps [simp del]

definition markdownToNotionBlocks :: "lineRules \<Rightarrow> jstring \<Rightarrow> block list option" where
  "markdownToNotionBlocks laterRules md = tokenizeFrom laterRules (split 10 md) 0"

section \<open>Table grid\<close>

text \<open>A cell of the HTML table: its text, and for each of the two span attributes what
  \<^verbatim>\<open>parseInt\<close> gives for it, \<open>None\<close> when that is not a number.\<close>

record cell =
  textContent :: jstring
  rowspanAttr :: "int option"
  colspanAttr :: "int option"

text \<open>\<^verbatim>\<open>parseInt(...) || 1\<close>\<close>

definition spanOf :: "int option \<Rightarrow> int" where
  "spanOf a = (case a of None \<Rightarrow> 1 | Some n \<Rightarrow> if n = 0 then 1 else n)"

text \<open>\<^verbatim>\<open>replace(/c+/g, ' ')\<close> for a class of characters: every run becomes one space.\<close>

function collapseRuns :: "(nat \<Rightarrow> bool) \<Rightarrow> jstring \<Rightarrow> jstring" where
  "collapseRuns P [] = []"
| "collapseRuns P (c # s) =
     (if P c then 32 # collapseRuns P (dropWhile P s) else c # collapseRuns P s)"
  by pat_completeness auto
termination
  by (relation "measure (\<lambda>(P, s). length s)") (auto simp: length_dropWhile_le less_Suc_eq_le)

definition escapePipes :: "jstring \<Rightarrow> jstring" where
  "escapePipes s = concat (map (\<lambda>c. if c = 124 then [92, 124] else [c]) s)"

definition cellText :: "cell \<Rightarrow> jstring" where
  "cellText cl =
     (let t = escapePipes (collapseRuns isWhiteSpace (collapseRuns (\<lambda>c. c = 10) (trim (textContent cl))))
      in if t \<noteq> [] then t else js '' '')"

type_synonym grid = "jstring option list list"

text \<open>\<^verbatim>\<open>while (colIndex < columnCount && grid[rowIndex][colIndex] !== null) colIndex++\<close>.
  The column index can be negative after a cell with a negative \<^verbatim>\<open>colspan\<close>; the row
  has no element there, and \<^verbatim>\<open>undefined !== null\<close> holds.\<close>

function nextFree :: "jstring option list \<Rightarrow> int \<Rightarrow> int \<Rightarrow> int" where
  "nextFree row columnCount colIndex =
     (if colIndex < columnCount \<and> (colIndex < 0 \<or> row ! nat colIndex \<noteq> None)
      then nextFree row columnCount (colIndex + 1) else colIndex)"
  by pat_completeness auto
termination
  by (relation "measure (\<lambda>(row, columnCount, colIndex). nat (columnCount - colIndex))") auto

declare nextFree.simps [simp del]

function colLoop ::
  "jstring option list \<Rightarrow> int \<Rightarrow> int \<Rightarrow> int \<Rightarrow> nat \<Rightarrow> jstring \<Rightarrow> nat \<Rightarrow> jstring option list" where
  "colLoop row colIndex colspan columnCount r text c =
     (if int c < colspan \<and> colIndex + int c < columnCount
      then colLoop (row[nat (colIndex + int c) := Some (if r = 0 \<and> c = 0 then text else js '' '')])
             colIndex colspan columnCount r text (c + 1)
      else row)"
  by pat_completeness auto
termination
  by (relation "measure (\<lambda>(row, colIndex, colspan, columnCount, r, text, c). nat (colspan - int c))") auto

declare colLoop.simps [simp del]

function rowLoop ::
  "grid \<Rightarrow> nat \<Rightarrow> int \<Rightarrow> int \<Rightarrow> int \<Rightarrow> int \<Rightarrow> jstring \<Rightarrow> nat \<Rightarrow> grid" where
  "rowLoop g rowIndex colIndex rowspan colspan columnCount text r =
     (if int r < rowspan \<and> rowIndex + r < length g
      then rowLoop (g[rowIndex + r := colLoop (g ! (rowIndex + r)) colIndex colspan columnCount r text 0])
             rowIndex colIndex rowspan colspan columnCount text (r + 1)
      else g)"
  by pat_completeness auto
termination
  by (relation "measure (\<lambda>(g, rowIndex, colIndex, rowspan, colspan, columnCount, text, r). nat (rowspan - int r))")
     auto

declare rowLoop.simps [simp del]

text \<open>The body of \<^verbatim>\<open>cells.forEach\<close>: the state is the grid and \<^verbatim>\<open>colIndex\<close>.  A cell
  for which no column is left is skipped.\<close>

definition placeCell :: "int \<Rightarrow> nat \<Rightarrow> grid \<times> int \<Rightarrow> cell \<Rightarrow> grid \<times> int" where
  "placeCell columnCount rowIndex s cl =
     (let colIndex = nextFree (fst s ! rowIndex) columnCount (snd s) in
      if columnCount \<le> colIndex then (fst s, colIndex)
      else (rowLoop (fst s) rowIndex colIndex (spanOf (rowspanAttr cl)) (spanOf (colspanAttr cl))
              columnCount (cellText cl) 0,
            colIndex + spanOf (colspanAttr cl)))"

definition fillRow :: "int \<Rightarrow> grid \<Rightarrow> nat \<Rightarrow> cell list \<Rightarrow> grid" where
  "fillRow columnCount g rowIndex cells = fst (foldl (placeCell columnCount rowIndex) (g, 0) cells)"

fun fillRows :: "int \<Rightarrow> grid \<Rightarrow> nat \<Rightarrow> cell list list \<Rightarrow> grid" where
  "fillRows columnCount g rowIndex [] = g"
| "fillRows columnCount g rowIndex (cells # rows) =
     fillRows columnCount (fillRow columnCount g rowIndex cells) (rowIndex + 1) rows"

definition columnCountOf :: "cell list list \<Rightarrow> int" where
  "columnCountOf rows = (case rows of [] \<Rightarrow> 0 | firstRow # _ \<Rightarrow> sum_list (map (\<lambda>cl. spanOf (colspanAttr cl)) firstRow))"

text \<open>The grid after the second pass.  \<^verbatim>\<open>new Array(columnCount)\<close> throws a
  \<^verbatim>\<open>RangeError\<close> for a negative length: the result is \<open>None\<close>.\<close>

definition tableGrid :: "cell list list \<Rightarrow> grid option" where
  "tableGrid rows =
     (let columnCount = columnCountOf rows in
      if rows \<noteq> [] \<and> columnCount < 0 then None
      else Some (fillRows columnCount (replicate (length rows) (replicate (nat columnCount) None)) 0 rows))"

text \<open>The third pass fills the cells that are still \<^verbatim>\<open>null\<close> with a space and writes the
  rows of the Markdown table.\<close>

definition cellContents :: "jstring option list \<Rightarrow> jstring list" where
  "cellContents rowData = map (\<lambda>c. case c of None \<Rightarrow> js '' '' | Some t \<Rightarrow> t) rowData"


definition tableRowMarkdown :: "int \<Rightarrow> nat \<Rightarrow> jstring option list \<Rightarrow> jstring" where
  "tableRowMarkdown columnCount rowIndex rowData =
     js ''| '' @ join (js '' | '') (cellContents rowData) @ js '' |'' @ [10] @
     (if rowIndex = 0 then js ''|'' @ repeat (js '' --- |'') (nat columnCount) @ [10] else [])"

definition confluenceTable :: "cell list list \<Rightarrow> jstring option" where
  "confluenceTable rows =
     (if rows = [] then Some []
      else map_option
             (\<lambda>g. [10, 10] @ concat (map (\<lambda>(i, rowData). tableRowMarkdown (columnCountOf rows) i rowData)
                                     (zip [0..<length g] g)) @ [10])
             (tableGrid rows))"






section \<open>Properties\<close>

lemma startsWith_Cons: "startsWith (x # xs) (y # ys) \<longleftrightarrow> x = y \<and> startsWith xs ys"
  by (auto simp: startsWith_def)

lemma startsWith_Nil: "startsWith xs [] = True" "startsWith [] (y # ys) = False"
  by (auto simp: startsWith_def)

text \<open>
  C6.  The language normaliser is to return a member of the closed set of accepted tags for
  every input.  It does not on the input \<^verbatim>\<open>c#\<close>: the later entry of \<^verbatim>\<open>langMap\<close> for that
  key sends it to \<^verbatim>\<open>csharp\<close>, which \<^verbatim>\<open>validNotionLanguages\<close> does not contain.
\<close>

theorem normalizeLanguage_csharp_not_valid:
  "normalizeLanguage (js ''c#'') = js ''csharp'' \<and>
   normalizeLanguage (js ''c#'') \<notin> set validNotionLanguages"
  by (simp add: normalizeLanguage_def trim_def trimStart_def trimEnd_def isWhiteSpace_def
      toLowerCase_def langMap_def langMapEntries_def validNotionLanguages_def)

lemma parseInlineMarkdown_unfold:
  "parseInlineMarkdown newURL t =
     (if trim t = [] then [emptySegment]
      else let result = concat (map (splitSegment newURL) (richTextRuns newURL t))
           in if result \<noteq> [] then result else [emptySegment])"
  by (subst parseInlineMarkdown.simps) (simp only: richTextRuns_def Let_def)

lemma chunkLoop_length: "x \<in> set (chunkLoop c i) \<Longrightarrow> length x \<le> MAX_TEXT_LENGTH"
proof (induction c i rule: chunkLoop.induct)
  case (1 c i)
  then show ?case
    by (subst (asm) chunkLoop.simps) (auto simp: slice_def split: if_splits)
qed

lemma chunkLoop_concat: "concat (chunkLoop c i) = drop i c"
proof (induction c i rule: chunkLoop.induct)
  case (1 c i)
  show ?case
  proof (cases "i < length c")
    case True
    have "concat (chunkLoop c i) = slice c i (i + MAX_TEXT_LENGTH) @ concat (chunkLoop c (i + MAX_TEXT_LENGTH))"
      using True by (subst chunkLoop.simps) simp
    also have "\<dots> = take MAX_TEXT_LENGTH (drop i c) @ drop (i + MAX_TEXT_LENGTH) c"
      using "1.IH" True by (simp add: slice_def)
    also have "\<dots> = drop i c"
      by (metis add.commute append_take_drop_id drop_drop)
    finally show ?thesis .
  next
    case False
    then show ?thesis by (subst chunkLoop.simps) simp
  qed
qed

lemma chunkLoop_many: "MAX_TEXT_LENGTH < length c \<Longrightarrow> 1 < length (chunkLoop c 0)"
  by (subst chunkLoop.simps, subst chunkLoop.simps) (auto simp: MAX_TEXT_LENGTH_def)

lemma splitSegment_length:
  "r \<in> set (splitSegment newURL seg) \<Longrightarrow> length (content r) \<le> MAX_TEXT_LENGTH"
  by (auto simp: splitSegment_def createRichTextSegment_def dest: chunkLoop_length split: if_splits)

lemma validLink_validated: "validatedLink newURL (validLink newURL l)"
  by (auto simp: validatedLink_def validLink_def truthy_def split: option.splits if_splits)

lemma createRichTextSegment_validated:
  "validatedLink newURL (link (createRichTextSegment newURL c a l))"
  by (simp add: createRichTextSegment_def validLink_validated)

lemma formatMatch_validated:
  "r \<in> set (formatMatch newURL nested m) \<Longrightarrow> validatedLink newURL (link r)"
  by (auto simp: formatMatch_def Let_def createRichTextSegment_validated validLink_validated
      split: if_splits)

lemma buildRichText_validated:
  "r \<in> set (fst (buildRichText newURL nested t i ms)) \<Longrightarrow> validatedLink newURL (link r)"
proof (induction ms arbitrary: i)
  case Nil
  then show ?case by simp
next
  case (Cons m ms)
  then show ?case
    by (auto simp: Let_def createRichTextSegment_validated dest: formatMatch_validated split: if_splits)
qed

lemma richTextRuns_validated:
  "r \<in> set (richTextRuns newURL t) \<Longrightarrow> validatedLink newURL (link r)"
  by (auto simp: richTextRuns_def Let_def createRichTextSegment_validated
      dest: buildRichText_validated split: if_splits)

lemma splitSegment_inherits:
  assumes idem: "\<And>u h. validateAndCleanUrl newURL u = Some h \<Longrightarrow> validateAndCleanUrl newURL h = Some h"
    and v: "validatedLink newURL (link seg)"
    and r: "r \<in> set (splitSegment newURL seg)"
  shows "annotations r = annotations seg \<and> link r = link seg"
proof (cases "length (content seg) \<le> MAX_TEXT_LENGTH")
  case True
  with r show ?thesis by (simp add: splitSegment_def)
next
  case False
  with r obtain chunk where "r = createRichTextSegment newURL chunk (annotations seg) (link seg)"
    by (auto simp: splitSegment_def)
  moreover have "validLink newURL (link seg) = link seg"
  proof (cases "link seg")
    case None
    then show ?thesis by (simp add: truthy_def validLink_def)
  next
    case (Some h)
    with v obtain u where "h \<noteq> []" "validateAndCleanUrl newURL u = Some h"
      by (auto simp: validatedLink_def)
    with idem [of u h] Some show ?thesis by (simp add: truthy_def validLink_def)
  qed
  ultimately show ?thesis by (simp add: createRichTextSegment_def)
qed

lemma splitSegment_concat: "concat (map content (splitSegment newURL seg)) = content seg"
proof -
  have "map content (map (\<lambda>chunk. createRichTextSegment newURL chunk a l) cs) = cs" for a l cs
    by (induction cs) (simp_all add: createRichTextSegment_def)
  then show ?thesis by (simp add: splitSegment_def chunkLoop_concat)
qed

lemma startsWith_hd: "startsWith s (c # cs) \<Longrightarrow> c \<in> set s"
  by (cases s) (auto simp: startsWith_def)

lemma matchAt_noMarkup: "noMarkup t \<Longrightarrow> matchAt pat t p = None"
proof -
  assume n: "noMarkup t"
  have "\<not> startsWith (drop p t) (c # cs)" if "c = 96 \<or> c = 42 \<or> c = 95 \<or> c = 126 \<or> c = 91" for c cs
  proof
    assume "startsWith (drop p t) (c # cs)"
    then have "c \<in> set (drop p t)" by (rule startsWith_hd)
    then have "c \<in> set t" by (rule in_set_dropD)
    with n that show False by (auto simp: noMarkup_def)
  qed
  then show ?thesis
    by (cases pat) (simp_all add: matchDelimAt_def matchLinkAt_def Let_def)
qed

lemma execAll_noMarkup: "noMarkup t \<Longrightarrow> execAll pat t p = []"
proof (induction pat t p rule: execAll.induct)
  case (1 pat tx p)
  then show ?case
    by (subst execAll.simps) (simp add: matchAt_noMarkup)
qed

lemma richTextRuns_noMarkup:
  "noMarkup t \<Longrightarrow> t \<noteq> [] \<Longrightarrow> richTextRuns newURL t = [plainRun t]"
  by (simp add: richTextRuns_def allMatches_def execAll_noMarkup patterns_def
      createRichTextSegment_def validLink_def truthy_def plainRun_def)

lemma trim_Nil: "trim [] = []"
  by (simp add: trim_def trimStart_def trimEnd_def)


lemma parseInlineMarkdown_nonempty: "parseInlineMarkdown newURL t \<noteq> []"
  by (simp add: parseInlineMarkdown_unfold Let_def)

lemma trim_replicate: "\<not> isWhiteSpace c \<Longrightarrow> trim (replicate n c) = replicate n c"
  by (simp add: trim_def trimStart_def trimEnd_def)

lemma splitSegment_nonempty: "splitSegment newURL seg \<noteq> []"
  by (auto simp: splitSegment_def MAX_TEXT_LENGTH_def chunkLoop.simps [of "content seg" 0])

lemma formatMatch_nonempty:
  "(\<And>c. nested c \<noteq> []) \<Longrightarrow> formatMatch newURL nested m \<noteq> []"
  by (simp add: formatMatch_def Let_def)

lemma richTextRuns_nonempty: "t \<noteq> [] \<Longrightarrow> richTextRuns newURL t \<noteq> []"
proof (cases "removeOverlapping [] (sort_key mstart (allMatches t))")
  case Nil
  assume "t \<noteq> []"
  with Nil show ?thesis by (simp add: richTextRuns_def Let_def)
next
  case (Cons m ms)
  have "formatMatch newURL (parseInlineMarkdown newURL) m \<noteq> []"
    by (rule formatMatch_nonempty) (rule parseInlineMarkdown_nonempty)
  with Cons show ?thesis by (simp add: richTextRuns_def Let_def)
qed

lemma parseInlineMarkdown_split:
  "parseInlineMarkdown newURL t =
     (if trim t = [] then [emptySegment]
      else concat (map (splitSegment newURL) (richTextRuns newURL t)))"
proof (cases "trim t = []")
  case True
  then show ?thesis by (simp add: parseInlineMarkdown_unfold)
next
  case False
  then have "t \<noteq> []" using trim_Nil by auto
  then obtain seg segs where r: "richTextRuns newURL t = seg # segs"
    using richTextRuns_nonempty [of t newURL] by (cases "richTextRuns newURL t") auto
  with False show ?thesis
    by (simp add: parseInlineMarkdown_unfold splitSegment_nonempty)
qed

lemma exampleURL_idem:
  "validateAndCleanUrl exampleURL u = Some h \<Longrightarrow> validateAndCleanUrl exampleURL h = Some h"
proof -
  let ?e = "js ''https://x.tld/Page-2dadca9a3fff80278295e23720dd2a53''"
  assume "validateAndCleanUrl exampleURL u = Some h"
  then have "h = ?e"
    by (auto simp: validateAndCleanUrl_def exampleURL_def Let_def split: if_splits option.splits)
  moreover have "validateAndCleanUrl exampleURL ?e = Some ?e"
    by (simp add: validateAndCleanUrl_def exampleURL_def Let_def trim_def trimStart_def trimEnd_def
        isWhiteSpace_def httpUrlPattern_def startsWith_def isLineTerminator_def)
  ultimately show ?thesis by simp
qed

text \<open>
  C5.  Every run that the inline formatter returns has at most 2000 code units of content.
  The formatter returns the runs it has built, each run of at most 2000 code units as it
  is and each longer run split into several consecutive runs whose contents, put together,
  are the content of the run and that carry its annotations and its link.  The link is
  handed to \<^verbatim>\<open>createRichTextSegment\<close>, which validates it again: the URL constructor is
  assumed to accept the URLs it has itself produced and to leave them as they are.
\<close>

theorem parseInlineMarkdown_length_ceiling:
  assumes idem: "\<And>u h. validateAndCleanUrl newURL u = Some h \<Longrightarrow> validateAndCleanUrl newURL h = Some h"
  shows "(\<forall>r \<in> set (parseInlineMarkdown newURL t). length (content r) \<le> 2000) \<and>
         parseInlineMarkdown newURL t =
           (if trim t = [] then [emptySegment]
            else concat (map (splitSegment newURL) (richTextRuns newURL t))) \<and>
         (\<forall>seg \<in> set (richTextRuns newURL t).
            (length (content seg) \<le> 2000 \<longrightarrow> splitSegment newURL seg = [seg]) \<and>
            (2000 < length (content seg) \<longrightarrow>
               1 < length (splitSegment newURL seg) \<and>
               concat (map content (splitSegment newURL seg)) = content seg \<and>
               (\<forall>r \<in> set (splitSegment newURL seg).
                  length (content r) \<le> 2000 \<and>
                  annotations r = annotations seg \<and> link r = link seg)))"
proof (intro conjI ballI impI)
  fix r :: richText assume "r \<in> set (parseInlineMarkdown newURL t)"
  then show "length (content r) \<le> 2000"
    using splitSegment_length [of r newURL]
    by (auto simp: parseInlineMarkdown_split emptySegment_def MAX_TEXT_LENGTH_def split: if_splits)
next
  show "parseInlineMarkdown newURL t =
          (if trim t = [] then [emptySegment]
           else concat (map (splitSegment newURL) (richTextRuns newURL t)))"
    by (rule parseInlineMarkdown_split)
next
  fix seg :: richText assume "length (content seg) \<le> 2000"
  then show "splitSegment newURL seg = [seg]"
    by (simp add: splitSegment_def MAX_TEXT_LENGTH_def)
next
  fix seg :: richText assume "2000 < length (content seg)"
  then show "1 < length (splitSegment newURL seg)"
    using chunkLoop_many [of "content seg"] by (simp add: splitSegment_def MAX_TEXT_LENGTH_def)
next
  fix seg :: richText
  show "concat (map content (splitSegment newURL seg)) = content seg"
    by (rule splitSegment_concat)
next
  fix seg r :: richText assume "r \<in> set (splitSegment newURL seg)"
  then show "length (content r) \<le> 2000"
    using splitSegment_length [of r newURL seg] by (simp add: MAX_TEXT_LENGTH_def)
next
  fix seg r :: richText
  assume "seg \<in> set (richTextRuns newURL t)" and r: "r \<in> set (splitSegment newURL seg)"
  then have v: "validatedLink newURL (link seg)" by (simp add: richTextRuns_validated)
  from splitSegment_inherits [OF idem v r]
  show "annotations r = annotations seg" by simp
next
  fix seg r :: richText
  assume "seg \<in> set (richTextRuns newURL t)" and r: "r \<in> set (splitSegment newURL seg)"
  then have v: "validatedLink newURL (link seg)" by (simp add: richTextRuns_validated)
  from splitSegment_inherits [OF idem v r]
  show "link r = link seg" by simp
qed

theorem parseInlineMarkdown_length_ceiling_witness:
  "richTextRuns exampleURL (replicate 2001 97) = [plainRun (replicate 2001 97)] \<and>
   1 < length (splitSegment exampleURL (plainRun (replicate 2001 97))) \<and>
   concat (map content (splitSegment exampleURL (plainRun (replicate 2001 97)))) = replicate 2001 97 \<and>
   parseInlineMarkdown exampleURL (replicate 2001 97) =
     splitSegment exampleURL (plainRun (replicate 2001 97))"
proof -
  let ?t = "replicate 2001 (97::nat)"
  have n: "noMarkup ?t" by (simp add: noMarkup_def)
  have w: "\<not> isWhiteSpace 97" by (simp add: isWhiteSpace_def)
  have t: "trim ?t \<noteq> []" by (simp add: trim_replicate [OF w])
  have r: "richTextRuns exampleURL ?t = [plainRun ?t]"
    using n by (simp add: richTextRuns_noMarkup)
  have l: "content (plainRun ?t) = ?t" by (simp add: plainRun_def)
  from parseInlineMarkdown_length_ceiling [of exampleURL ?t, OF exampleURL_idem] r l t
  show ?thesis by simp
qed










lemma matchPrefix_marker:
  "e = Digits \<or> e = SameDigits \<Longrightarrow> matchPrefix (e # es) (91 # s) = None"
  by (auto simp: isDigit_def)





lemmas eval_trim = trim_def trimStart_def trimEnd_def isWhiteSpace_def




text \<open>
  C10.  When the validation of the URL of an image gives no URL, \<^verbatim>\<open>createImageBlock\<close>
  returns no image block but a callout with the picture frame as icon and a yellow
  background.  Its first run names the image, with the caption when there is one.  Its second
  run links to the URL as it was given when that starts with \<^verbatim>\<open>http://\<close> or
  \<^verbatim>\<open>https://\<close>, and otherwise ends with the URL as plain text, \<^verbatim>\<open>N/A\<close> standing for
  an empty URL.  The validation gives no URL, whatever the URL constructor does, when the
  trimmed URL neither has the form of an http or https URL nor starts with two slashes.
\<close>

theorem createImageBlock_invalid_url:
  "(truthy (validateAndCleanUrl newURL u) = None \<longrightarrow>
      createImageBlock newURL u caption =
        Callout
          [plainRun (if caption = [] then js ''Image'' else js ''Image: '' @ caption),
           if startsWith u (js ''http://'') \<or> startsWith u (js ''https://'')
           then \<lparr>content = js '' - View original image'', annotations = noAnnotations, link = Some u\<rparr>
           else plainRun (js '' - URL: '' @ (if u = [] then js ''N/A'' else u))]
          pictureFrameEmoji (js ''yellow_background'')) \<and>
   (\<not> httpUrlPattern (trim u) \<and> \<not> startsWith (trim u) (js ''//'') \<longrightarrow>
      truthy (validateAndCleanUrl newURL u) = None)"
proof (intro conjI impI)
  assume "truthy (validateAndCleanUrl newURL u) = None"
  then show "createImageBlock newURL u caption =
        Callout
          [plainRun (if caption = [] then js ''Image'' else js ''Image: '' @ caption),
           if startsWith u (js ''http://'') \<or> startsWith u (js ''https://'')
           then \<lparr>content = js '' - View original image'', annotations = noAnnotations, link = Some u\<rparr>
           else plainRun (js '' - URL: '' @ (if u = [] then js ''N/A'' else u))]
          pictureFrameEmoji (js ''yellow_background'')"
    by (cases "u = []") (simp_all add: createImageBlock_def Let_def plainRun_def startsWith_def)
next
  assume "\<not> httpUrlPattern (trim u) \<and> \<not> startsWith (trim u) (js ''//'')"
  then show "truthy (validateAndCleanUrl newURL u) = None"
    by (simp add: validateAndCleanUrl_def truthy_def Let_def)
qed

theorem createImageBlock_invalid_url_witness:
  "truthy (validateAndCleanUrl noURL (js ''/images/a.png'')) = None \<and>
   createImageBlock noURL (js ''/images/a.png'') (js ''diagram'') =
     Callout [plainRun (js ''Image: diagram''), plainRun (js '' - URL: /images/a.png'')]
       pictureFrameEmoji (js ''yellow_background'')"
proof -
  have t: "trim (js ''/images/a.png'') = js ''/images/a.png''"
    by (simp add: eval_trim)
  have h: "\<not> httpUrlPattern (js ''/images/a.png'') \<and> \<not> startsWith (js ''/images/a.png'') (js ''//'')"
    by (simp add: httpUrlPattern_def startsWith_Cons startsWith_Nil)
  from createImageBlock_invalid_url [of noURL "js ''/images/a.png''" "js ''diagram''"] t h
  show ?thesis by (simp add: startsWith_Cons startsWith_Nil)
qed

lemma removeDashes_hex: "\<forall>c \<in> set m. isHexDigit c \<Longrightarrow> removeDashes m = m"
  by (induction m) (auto simp: removeDashes_def isHexDigit_def)

lemma formatNotionId_uuid: "isHex32 m \<Longrightarrow> isUuidForm (formatNotionId m)"
proof -
  assume h: "isHex32 m"
  then have r: "removeDashes m = m" and l: "length m = 32" and x: "\<And>i. i < 32 \<Longrightarrow> isHexDigit (m ! i)"
    by (auto simp: isHex32_def removeDashes_hex)
  have f: "formatNotionId m = take 8 m @ [45] @ take 4 (drop 8 m) @ [45] @ take 4 (drop 12 m) @ [45] @
      take 4 (drop 16 m) @ [45] @ drop 20 m"
    using l by (simp add: formatNotionId_def r slice_def)
  show ?thesis
    unfolding isUuidForm_def f using l x
    by (auto simp: nth_append)
qed

lemma extract_uuid: "extractAndValidatePageId newURL input = Inr r \<Longrightarrow> isUuidForm r"
proof -
  assume a: "extractAndValidatePageId newURL input = Inr r"
  have "matchPathId p = Some m \<Longrightarrow> isHex32 m" for p m
    by (auto simp: matchPathId_def Let_def split: if_splits)
  with a obtain m where "isHex32 m" "r = formatNotionId m"
    by (auto simp: extractAndValidatePageId_def Let_def split: if_splits option.splits)
  then show ?thesis by (simp add: formatNotionId_uuid)
qed


lemma matchPathId_eq:
  "matchPathId p = (if 32 \<le> length p \<and> isHex32 (last32 p) then Some (last32 p) else None)"
  by (auto simp: matchPathId_def last32_def Let_def)

lemma isHttpPrefixed_nonempty: "isHttpPrefixed t \<Longrightarrow> t \<noteq> []"
  by (auto simp: isHttpPrefixed_def startsWith_def)

lemma extract_bare:
  "bareIdShape (trim input) \<Longrightarrow>
   extractAndValidatePageId newURL input = Inr (formatNotionId (removeDashes (trim input)))"
  by (simp add: extractAndValidatePageId_def bareIdShape_def isHttpPrefixed_def Let_def)

lemma extract_url:
  "urlIdShape newURL (trim input) \<Longrightarrow>
   extractAndValidatePageId newURL input = Inr (formatNotionId (last32 (urlPath newURL (trim input))))"
proof -
  assume a: "urlIdShape newURL (trim input)"
  then have "trim input \<noteq> []" by (simp add: urlIdShape_def isHttpPrefixed_nonempty)
  with a show ?thesis
    by (auto simp: extractAndValidatePageId_def urlIdShape_def urlPath_def matchPathId_eq
        isHttpPrefixed_def Let_def split: option.splits)
qed

lemma extract_other:
  "\<not> bareIdShape (trim input) \<Longrightarrow> \<not> urlIdShape newURL (trim input) \<Longrightarrow>
   \<exists>e. extractAndValidatePageId newURL input = Inl e"
  by (auto simp: extractAndValidatePageId_def urlIdShape_def bareIdShape_def matchPathId_eq
      isHttpPrefixed_def Let_def split: option.splits)

lemma handleCreatePage_invalid:
  "extractAndValidatePageId newURL (parentPageId d) = Inl e \<Longrightarrow>
   calls (fst (handleCreatePage convert newURL net w d)) = calls w \<and>
   \<not> success (snd (handleCreatePage convert newURL net w d)) \<and>
   error (snd (handleCreatePage convert newURL net w d)) \<noteq> None"
  by (simp add: handleCreatePage_def failure_def sendProgressUpdate_def)

lemma eval_example_id:
  "trim (js ''2dadca9a-3fff-8027-8295-e23720dd2a53'') = js ''2dadca9a-3fff-8027-8295-e23720dd2a53''"
  "removeDashes (js ''2dadca9a-3fff-8027-8295-e23720dd2a53'') = js ''2dadca9a3fff80278295e23720dd2a53''"
  "isHex32 (js ''2dadca9a3fff80278295e23720dd2a53'')"
  "formatNotionId (js ''2dadca9a3fff80278295e23720dd2a53'') = js ''2dadca9a-3fff-8027-8295-e23720dd2a53''"
  "\<not> isHttpPrefixed (js ''2dadca9a-3fff-8027-8295-e23720dd2a53'')"
  by (simp_all add: eval_trim removeDashes_def isHex32_def isHexDigit_def formatNotionId_def
      slice_def Let_def isHttpPrefixed_def startsWith_Cons startsWith_Nil)

lemma eval_invalid_id:
  "trim (js ''not-a-valid-id'') = js ''not-a-valid-id''"
  "\<not> bareIdShape (js ''not-a-valid-id'')"
  "\<not> urlIdShape newURL (js ''not-a-valid-id'')"
  by (simp_all add: eval_trim bareIdShape_def urlIdShape_def removeDashes_def isHex32_def
      isHttpPrefixed_def startsWith_Cons startsWith_Nil)

text \<open>
  C7.  The extraction of the page id accepts more than a bare id and a URL whose path ends in
  a hyphen and 32 hexadecimal digits: a URL whose path ends in 32 hexadecimal digits
  without a hyphen before them is accepted too.  The input is trimmed first.  A string that
  is not an http or https URL and has 32 hexadecimal digits once its hyphens are removed
  gives these digits, and an http or https URL whose path ends in 32 hexadecimal digits
  gives these, in both cases in the form 8-4-4-4-12.  Every other input gives an error, and
  then \<^verbatim>\<open>handleCreatePage\<close> fails without a request to the service.
\<close>

theorem extractAndValidatePageId_shapes:
  "(bareIdShape (trim input) \<longrightarrow>
      extractAndValidatePageId newURL input = Inr (formatNotionId (removeDashes (trim input)))) \<and>
   (urlIdShape newURL (trim input) \<longrightarrow>
      extractAndValidatePageId newURL input =
        Inr (formatNotionId (last32 (urlPath newURL (trim input))))) \<and>
   (\<not> bareIdShape (trim input) \<and> \<not> urlIdShape newURL (trim input) \<longrightarrow>
      (\<exists>e. extractAndValidatePageId newURL input = Inl e)) \<and>
   (\<forall>r. extractAndValidatePageId newURL input = Inr r \<longrightarrow> isUuidForm r) \<and>
   (urlPath newURL (js ''https://x.tld/Page-2dadca9a3fff80278295e23720dd2a53'') =
      js ''/Page-2dadca9a3fff80278295e23720dd2a53'' \<longrightarrow>
      extractAndValidatePageId newURL (js ''https://x.tld/Page-2dadca9a3fff80278295e23720dd2a53'') =
        Inr (js ''2dadca9a-3fff-8027-8295-e23720dd2a53'')) \<and>
   (\<exists>e. extractAndValidatePageId newURL (js ''not-a-valid-id'') = Inl e) \<and>
   (\<forall>e. extractAndValidatePageId newURL (parentPageId d) = Inl e \<longrightarrow>
      calls (fst (handleCreatePage convert newURL net w d)) = calls w \<and>
      \<not> success (snd (handleCreatePage convert newURL net w d)) \<and>
      error (snd (handleCreatePage convert newURL net w d)) \<noteq> None)"
proof (intro conjI allI impI)
  assume "bareIdShape (trim input)"
  then show "extractAndValidatePageId newURL input = Inr (formatNotionId (removeDashes (trim input)))"
    by (rule extract_bare)
next
  assume "urlIdShape newURL (trim input)"
  then show "extractAndValidatePageId newURL input =
        Inr (formatNotionId (last32 (urlPath newURL (trim input))))"
    by (rule extract_url)
next
  assume "\<not> bareIdShape (trim input) \<and> \<not> urlIdShape newURL (trim input)"
  then show "\<exists>e. extractAndValidatePageId newURL input = Inl e"
    by (simp add: extract_other)
next
  fix r assume "extractAndValidatePageId newURL input = Inr r"
  then show "isUuidForm r" by (rule extract_uuid)
next
  let ?u = "js ''https://x.tld/Page-2dadca9a3fff80278295e23720dd2a53''"
  assume a: "urlPath newURL ?u = js ''/Page-2dadca9a3fff80278295e23720dd2a53''"
  have t: "trim ?u = ?u" by (simp add: eval_trim)
  have l: "last32 (js ''/Page-2dadca9a3fff80278295e23720dd2a53'') = js ''2dadca9a3fff80278295e23720dd2a53''"
    by (simp add: last32_def)
  from a have "newURL ?u \<noteq> None" by (auto simp: urlPath_def split: option.splits)
  with a l eval_example_id(3) have "urlIdShape newURL ?u"
    by (auto simp: urlIdShape_def urlPath_def isHttpPrefixed_def
        startsWith_Cons startsWith_Nil)
  with extract_url [of newURL ?u] t a l eval_example_id(4)
  show "extractAndValidatePageId newURL ?u = Inr (js ''2dadca9a-3fff-8027-8295-e23720dd2a53'')"
    by simp
next
  show "\<exists>e. extractAndValidatePageId newURL (js ''not-a-valid-id'') = Inl e"
    using eval_invalid_id(1,2) eval_invalid_id(3) [of newURL] by (intro extract_other) simp_all
next
  fix e assume a: "extractAndValidatePageId newURL (parentPageId d) = Inl e"
  from handleCreatePage_invalid [OF a]
  show "calls (fst (handleCreatePage convert newURL net w d)) = calls w"
    and "\<not> success (snd (handleCreatePage convert newURL net w d))"
    and "error (snd (handleCreatePage convert newURL net w d)) \<noteq> None"
    by simp_all
qed

theorem extractAndValidatePageId_shapes_witness:
  "extractAndValidatePageId hostURL (js ''https://x.tld/Page-2dadca9a3fff80278295e23720dd2a53'') =
     Inr (js ''2dadca9a-3fff-8027-8295-e23720dd2a53'') \<and>
   extractAndValidatePageId hostURL (js ''2dadca9a-3fff-8027-8295-e23720dd2a53'') =
     Inr (js ''2dadca9a-3fff-8027-8295-e23720dd2a53'') \<and>
   calls (fst (handleCreatePage convert150 hostURL okNet emptyWorld
     (exampleParams\<lparr>parentPageId := js ''not-a-valid-id''\<rparr>))) = []"
proof -
  let ?u = "js ''https://x.tld/Page-2dadca9a3fff80278295e23720dd2a53''"
  let ?i = "js ''2dadca9a-3fff-8027-8295-e23720dd2a53''"
  let ?d = "exampleParams\<lparr>parentPageId := js ''not-a-valid-id''\<rparr>"
  have e: "urlPath hostURL ?u = js ''/Page-2dadca9a3fff80278295e23720dd2a53''"
    by (simp add: hostURL_def urlPath_def startsWith_Cons startsWith_Nil)
  have b: "bareIdShape ?i" using eval_example_id by (simp add: bareIdShape_def)
  have p: "parentPageId ?d = js ''not-a-valid-id''" by simp
  from extractAndValidatePageId_shapes [where input = ?i and newURL = hostURL
      and d = ?d and convert = convert150 and net = okNet and w = emptyWorld]
    e b p eval_example_id
  show ?thesis by (auto simp: emptyWorld_def)
qed

text \<open>The claim as it was stated gives an error for every input that is neither a bare id nor
  a URL whose path ends in a hyphen and 32 hexadecimal digits.  This URL has no hyphen before
  the digits and is accepted.\<close>

theorem extractAndValidatePageId_shapes_counterexample:
  "extractAndValidatePageId hostURL (js ''https://x.tld/2dadca9a3fff80278295e23720dd2a53'') =
     Inr (js ''2dadca9a-3fff-8027-8295-e23720dd2a53'')"
  by (simp add: extractAndValidatePageId_def eval_trim startsWith_Cons startsWith_Nil hostURL_def
      matchPathId_def isHex32_def isHexDigit_def formatNotionId_def removeDashes_def slice_def)

lemma appendBlocksToPage_small:
  "length blocks \<le> 100 \<Longrightarrow>
   appendBlocksToPage net w pid blocks token =
     (w\<lparr>calls := calls w @ [AppendChildren pid blocks token]\<rparr>,
      case net (calls w) (AppendChildren pid blocks token) of Inl e \<Rightarrow> Inl e | Inr r \<Rightarrow> Inr ())"
  by (simp add: appendBlocksToPage_def notionRequest_def MAX_BLOCKS_PER_REQUEST_def split: sum.splits)

lemma uploadChunks_one:
  assumes "remaining \<noteq> []" "length remaining \<le> 100"
  shows "uploadChunks net w pid remaining token 0 =
     (let w1 = sendProgressUpdate w 95 (js ''Uploading blocks 1/1...'')
      in (w1\<lparr>calls := calls w1 @ [AppendChildren pid remaining token]\<rparr>,
          case net (calls w1) (AppendChildren pid remaining token) of
            Inl e \<Rightarrow> Inl e | Inr r \<Rightarrow> Inr ()))"
proof -
  have t: "(99 + length remaining) div 100 = Suc 0" using assms by (cases remaining) auto
  have s: "showNat (Suc 0) = js ''1''" by (subst showNat.simps) simp
  have u: "uploadChunks net w' pid remaining token 100 = (w', Inr ())" for w'
    using assms by (subst uploadChunks.simps) (simp add: MAX_BLOCKS_PER_REQUEST_def)
  show ?thesis
    using assms
    by (subst uploadChunks.simps)
       (simp add: MAX_BLOCKS_PER_REQUEST_def t s u appendBlocksToPage_small Let_def
         sendProgressUpdate_def split: sum.splits)
qed

text \<open>
  C1.  With 150 converted blocks and no source URL, \<^verbatim>\<open>createNotionPage\<close> makes one
  request that creates the page with the first 100 blocks and, when the service answers it
  with the page, one request that appends the other 50 blocks to this page, and no other
  request.  The percentages it reports are in non-decreasing order.
\<close>

theorem createNotionPage_150_blocks:
  assumes len: "length (convert (markdown d)) = 150" and src: "sourceUrl d = []"
  shows "calls (fst (createNotionPage convert net w d)) =
           calls w @
           CreatePage (parentPageId d) (title d) (take 100 (convert (markdown d))) (apiToken d) #
           (case net (calls w)
                   (CreatePage (parentPageId d) (title d) (take 100 (convert (markdown d))) (apiToken d)) of
              Inl e \<Rightarrow> []
            | Inr pg \<Rightarrow> [AppendChildren (page_id pg) (drop 100 (convert (markdown d))) (apiToken d)]) \<and>
         length (take 100 (convert (markdown d))) = 100 \<and>
         length (drop 100 (convert (markdown d))) = 50 \<and>
         take (length (progress w)) (progress (fst (createNotionPage convert net w d))) = progress w \<and>
         sorted (map fst (drop (length (progress w)) (progress (fst (createNotionPage convert net w d)))))"
proof -
  let ?blocks = "convert (markdown d)"
  let ?create = "CreatePage (parentPageId d) (title d) (take 100 ?blocks) (apiToken d)"
  from len have ne: "?blocks \<noteq> []" by auto
  from len src ne have pb: "pageBlocks convert d = ?blocks" by (simp add: pageBlocks_def)
  from len have r: "drop 100 ?blocks \<noteq> []" "length (drop 100 ?blocks) \<le> 100" by auto
  show ?thesis
  proof (cases "net (calls w) ?create")
    case (Inl e)
    with len ne pb show ?thesis
      by (simp add: createNotionPage_def Let_def notionRequest_def sendProgressUpdate_def
          MAX_BLOCKS_PER_REQUEST_def)
  next
    case (Inr pg)
    with len ne pb r show ?thesis
      by (simp add: createNotionPage_def Let_def notionRequest_def sendProgressUpdate_def
          MAX_BLOCKS_PER_REQUEST_def uploadChunks_one split: sum.splits)
  qed
qed

theorem createNotionPage_150_blocks_witness:
  "calls (fst (createNotionPage convert150 okNet emptyWorld exampleParams)) =
     [CreatePage (js ''2dadca9a3fff80278295e23720dd2a53'') (js ''T'')
        (replicate 100 (Paragraph [plainRun (js ''x'')])) (js ''secret''),
      AppendChildren (js ''p1'') (replicate 50 (Paragraph [plainRun (js ''x'')])) (js ''secret'')] \<and>
   sorted (map fst (progress (fst (createNotionPage convert150 okNet emptyWorld exampleParams))))"
proof -
  have l: "length (convert150 (markdown exampleParams)) = 150" by (simp add: convert150_def)
  have s: "sourceUrl exampleParams = []" by (simp add: exampleParams_def)
  from createNotionPage_150_blocks [where convert = convert150 and d = exampleParams
      and net = okNet and w = emptyWorld, OF l s]
  show ?thesis
    by (simp add: okNet_def examplePage_def emptyWorld_def exampleParams_def convert150_def)
qed






lemma fenceCountLoop_result:
  "k \<le> fenceCountLoop c k \<and> \<not> includesStr c (repeat (js ''`'') (fenceCountLoop c k))"
proof (induction c k rule: fenceCountLoop.induct)
  case (1 codeContent fenceCount)
  show ?case
  proof (cases "includesStr codeContent (repeat (js ''`'') fenceCount)")
    case True
    with "1.IH" show ?thesis by (subst (1 2) fenceCountLoop.simps) auto
  next
    case False
    then show ?thesis by (subst (1 2) fenceCountLoop.simps) simp
  qed
qed

lemma codeFence_avoids:
  "includesStr c (js ''```'') \<Longrightarrow>
   4 \<le> length (codeFence c) \<and> set (codeFence c) = {96} \<and> \<not> includesStr c (codeFence c)"
  using fenceCountLoop_result [of 4 c]
  by (auto simp: codeFence_def repeat_def)

lemma includesStr_Cons:
  "includesStr (c # s) p = (startsWith (c # s) p \<or> includesStr s p)"
  by simp

text \<open>
  C2.  For a code text that contains three backticks the serializer chooses a fence of four
  or more backticks that does not occur in the text.  The tokenizer does not give the text
  back: it closes a code block only at a line that is exactly three backticks, so the
  closing fence of four backticks is read as a line of the code, and the language after the
  opening fence is read with the fourth backtick in front.  For the text \<^verbatim>\<open>x ``` y\<close> in
  the language \<^verbatim>\<open>js\<close> the block holds the text, the closing fence and the blank lines
  after it, in the language \<^verbatim>\<open>plain text\<close>.
\<close>

theorem code_fence_not_round_trip:
  "includesStr (js ''x ``` y'') (js ''```'') \<and>
   codeFence (js ''x ``` y'') = js ''````'' \<and>
   markdownToNotionBlocks laterRules (confluenceCodeBlock (js ''x ``` y'') (js ''js'')) =
     Some [Code [plainRun (js ''x ``` y'' @ [10] @ js ''````'' @ [10, 10])] (js ''plain text'')]"
proof -
  let ?lines = "[[], [], js ''```` js'', js ''x ``` y'', js ''````'', [], []]"
  let ?content = "js ''x ``` y'' @ [10] @ js ''````'' @ [10, 10]"
  have i: "includesStr (js ''x ``` y'') (js ''```'')"
    by (simp add: startsWith_Cons startsWith_Nil)
  have r: "repeat [96] 4 = [96, 96, 96, 96]"
    by (simp add: repeat_def eval_nat_numeral)
  have f: "codeFence (js ''x ``` y'') = js ''````''"
    by (simp add: codeFence_def fenceCountLoop.simps [of _ 4] r startsWith_Cons startsWith_Nil)
  have m: "confluenceCodeBlock (js ''x ``` y'') (js ''js'') =
      [10, 10] @ js ''```` js'' @ [10] @ js ''x ``` y'' @ [10] @ js ''````'' @ [10, 10]"
    using f by (simp add: confluenceCodeBlock_def)
  have l: "split 10 (confluenceCodeBlock (js ''x ``` y'') (js ''js'')) = ?lines"
    using m by simp
  have n: "normalizeLanguage (js ''` js'') = js ''plain text''"
    by (simp add: normalizeLanguage_def eval_trim toLowerCase_def langMap_def langMapEntries_def
        validNotionLanguages_def)
  have c: "collectCodeLines ?lines [] 3 [] = ([js ''x ``` y'', js ''````'', [], []], 7)"
    by (simp add: collectCodeLines.simps eval_trim startsWith_Cons startsWith_Nil Let_def)
  have t8: "tokenizeFrom laterRules ?lines 8 = Some []"
    by (subst tokenizeFrom.simps) simp
  have t2: "tokenizeFrom laterRules ?lines 2 = Some [createCodeBlock ?content (js ''` js'')]"
    using c t8
    by (subst tokenizeFrom.simps) (simp add: eval_trim startsWith_Cons startsWith_Nil Let_def slice_def)
  have t0: "tokenizeFrom laterRules ?lines 0 = Some [createCodeBlock ?content (js ''` js'')]"
    using t2
    by (subst tokenizeFrom.simps, simp add: eval_trim, subst tokenizeFrom.simps,
        simp add: eval_trim numeral_2_eq_2 [symmetric])
  have b: "createCodeBlock ?content (js ''` js'') = Code [plainRun ?content] (js ''plain text'')"
    using n by (simp add: createCodeBlock_def MAX_CODE_LENGTH_def Let_def)
  from i f l t0 b show ?thesis by (simp add: markdownToNotionBlocks_def)
qed









































end
